theory Spec2Isabelle
  imports Main
begin

text \<open>
  The session and token lifecycle of the anime recommendation front end: the token store
  and the request dispatcher with its refresh-and-retry interceptor (the API client), the
  authentication provider with its guarded operations (\<open>AuthContext\<close>), the
  normalization of chat history timestamps (\<open>ChatContext\<close>) and the schema of the
  sync request. The translation of the sources comes first, then what is proved of it.
\<close>

section \<open>JavaScript values\<close>

text \<open>
  The client handles response bodies typed \<open>any\<close>: every test it makes on them is a
  truthiness test, a \<open>typeof\<close> test or a property read. The values are modelled as
  they are at run time. Finite numbers are modelled by integers (identifiers and Unix
  timestamps are); \<open>NaN\<close> and the two infinities are kept apart, since the code tests
  for them. A \<open>Date\<close> object carries its time value in milliseconds, \<open>None\<close> for the
  invalid date (whose \<open>getTime()\<close> is \<open>NaN\<close>).
\<close>

datatype jsnum = Fin int | NaN | PosInf | NegInf

type_synonym jsdate = "int option"

datatype jsval =
    Undefined
  | Null
  | Bool bool
  | Num jsnum
  | Str string
  | DateObj jsdate
  | Arr "jsval list"
  | Obj "(string \<times> jsval) list"

text \<open>\<open>!!v\<close>: the falsy values are \<open>undefined\<close>, \<open>null\<close>, \<open>false\<close>, \<open>0\<close>, \<open>NaN\<close> and
  the empty string.\<close>

fun truthy :: "jsval \<Rightarrow> bool" where
  "truthy Undefined = False"
| "truthy Null = False"
| "truthy (Bool b) = b"
| "truthy (Num (Fin n)) = (n \<noteq> 0)"
| "truthy (Num NaN) = False"
| "truthy (Num PosInf) = True"
| "truthy (Num NegInf) = True"
| "truthy (Str s) = (s \<noteq> [])"
| "truthy (DateObj d) = True"
| "truthy (Arr xs) = True"
| "truthy (Obj kvs) = True"

text \<open>\<open>v === null || v === undefined\<close>: reading a property of such a value throws a
  \<open>TypeError\<close>.\<close>

fun nullish :: "jsval \<Rightarrow> bool" where
  "nullish Undefined = True"
| "nullish Null = True"
| "nullish v = False"

text \<open>
  \<open>v.k\<close> and \<open>v?.k\<close> for the keys the client reads (\<open>user\<close>, \<open>tokens\<close>, \<open>email\<close>,
  \<open>accessToken\<close>, \<open>error\<close>, ...): none of them is a property of a string, number,
  boolean, array or date, so the read gives \<open>undefined\<close> on everything but an object
  holding the key. \<open>get\<close> is used for \<open>v?.k\<close>, and for \<open>v.k\<close> where the source has
  established that \<open>v\<close> is truthy; the reads that can throw are guarded by \<open>nullish\<close>
  where they occur.
\<close>

fun get :: "jsval \<Rightarrow> string \<Rightarrow> jsval" where
  "get (Obj kvs) k = (case map_of kvs k of Some v \<Rightarrow> v | None \<Rightarrow> Undefined)"
| "get v k = Undefined"

text \<open>\<open>a || b\<close> and \<open>a && b\<close> return one of their operands.\<close>

definition or_else :: "jsval \<Rightarrow> jsval \<Rightarrow> jsval" where
  "or_else a b = (if truthy a then a else b)"

definition and_then :: "jsval \<Rightarrow> jsval \<Rightarrow> jsval" where
  "and_then a b = (if truthy a then b else a)"

text \<open>\<open>typeof v === 'object'\<close> holds of objects, arrays, dates and \<open>null\<close>.\<close>

fun typeof_object :: "jsval \<Rightarrow> bool" where
  "typeof_object Null = True"
| "typeof_object (DateObj d) = True"
| "typeof_object (Arr xs) = True"
| "typeof_object (Obj kvs) = True"
| "typeof_object v = False"

section \<open>Strings\<close>

text \<open>\<open>s.includes(p)\<close>: \<open>p\<close> occurs in \<open>s\<close> as a substring.\<close>

fun starts_with :: "string \<Rightarrow> string \<Rightarrow> bool" where
  "starts_with s [] = True"
| "starts_with [] (c # p) = False"
| "starts_with (a # s) (c # p) = (a = c \<and> starts_with s p)"

fun str_includes :: "string \<Rightarrow> string \<Rightarrow> bool" where
  "str_includes [] p = (p = [])"
| "str_includes (a # s) p = (starts_with (a # s) p \<or> str_includes s p)"

text \<open>
  \<open>v.includes(m)\<close> on a value typed \<open>any\<close>: a string looks for a substring, an array
  for an element equal to \<open>m\<close>, and every other value has no \<open>includes\<close>, so the call
  throws a \<open>TypeError\<close> (\<open>None\<close>).
\<close>

fun js_includes :: "jsval \<Rightarrow> string \<Rightarrow> bool option" where
  "js_includes (Str s) m = Some (str_includes s m)"
| "js_includes (Arr xs) m = Some (Str m \<in> set xs)"
| "js_includes v m = None"

text \<open>Decimal digits of a status code, for the template string of \<open>handleError\<close>.\<close>

definition digit :: "nat \<Rightarrow> char" where
  "digit n = ''0123456789'' ! (n mod 10)"

function show_nat :: "nat \<Rightarrow> string" where
  "show_nat n = (if n < 10 then [digit n] else show_nat (n div 10) @ [digit (n mod 10)])"
  by pat_completeness auto
termination
  by (relation "measure (\<lambda>n. n)") auto

section \<open>The token store\<close>

text \<open>
  The module-level slot \<open>accessToken\<close> and the entry \<open>'accessToken'\<close> of
  \<open>sessionStorage\<close>. \<open>sessionStorage\<close> is \<open>None\<close> where \<open>typeof window\<close> is
  \<open>'undefined'\<close> (no browser), and the entry (\<open>getItem\<close>'s \<open>string | null\<close>)
  otherwise.
\<close>

record token_store =
  accessToken :: "string option"
  sessionStorage :: "string option option"

text \<open>\<open>if (token)\<close> on a \<open>string | null\<close>: the empty string counts as no token.\<close>

fun present :: "string option \<Rightarrow> bool" where
  "present None = False"
| "present (Some t) = (t \<noteq> [])"

definition setAccessToken :: "string option \<Rightarrow> token_store \<Rightarrow> token_store" where
  "setAccessToken token st =
     (let st1 = st\<lparr>accessToken := token\<rparr> in
      case sessionStorage st1 of
        None \<Rightarrow> st1
      | Some item \<Rightarrow>
          if present token then st1\<lparr>sessionStorage := Some token\<rparr>
          else st1\<lparr>sessionStorage := Some None\<rparr>)"

text \<open>\<open>getAccessToken\<close> returns the token and the store, whose slot it fills from the
  session entry when it falls back on it.\<close>

definition getAccessToken :: "token_store \<Rightarrow> string option \<times> token_store" where
  "getAccessToken st =
     (if present (accessToken st) then (accessToken st, st)
      else case sessionStorage st of
             None \<Rightarrow> (None, st)
           | Some token \<Rightarrow>
               if present token then (token, st\<lparr>accessToken := token\<rparr>) else (None, st))"

text \<open>
  \<open>if (token) setAccessToken(token)\<close> where \<open>token\<close> was read from a body typed
  \<open>any\<close>. The token fields are declared \<open>accessToken: string\<close>; a truthy value of
  another type is not a token the string-typed store represents, and the model leaves the
  store as it is there.
\<close>

fun store_token :: "jsval \<Rightarrow> token_store \<Rightarrow> token_store" where
  "store_token (Str t) st = (if t \<noteq> [] then setAccessToken (Some t) st else st)"
| "store_token v st = st"

section \<open>The request dispatcher\<close>

text \<open>
  What the HTTP library hands to the interceptors: a response with its status, status
  text and parsed body, or no response at all. A request configuration carries the
  \<open>_retry\<close> mark the error interceptor sets on it.
\<close>

record http_response =
  status :: nat
  statusText :: string
  data :: jsval

datatype net_outcome = Response http_response | NoResponse

record request_config =
  http_method :: string
  url :: string
  retry :: bool

text \<open>
  The errors a call can reject with: the library's error for a request that went out,
  which holds the response (if one came) and the configuration of the request, and an
  error that holds a message only, as the \<open>TypeError\<close> of an interceptor does.
\<close>

datatype thrown = AxiosError "http_response option" request_config | TypeError string

datatype axios_result = Fulfilled http_response | Rejected thrown

text \<open>What has gone out on the network, in order: a request of the instance with the
  bearer token of its \<open>Authorization\<close> header, or the refresh call.\<close>

datatype net_event = Sent request_config "string option" | RefreshSent

record dispatch_state =
  store :: token_store
  sent :: "net_event list"

text \<open>The four texts by which a 401 says that no token was presented.\<close>

definition isNoTokenError :: "jsval \<Rightarrow> bool option" where
  "isNoTokenError errorMessage =
     (case js_includes errorMessage ''No refresh token'' of
        None \<Rightarrow> None
      | Some b \<Rightarrow>
          Some (b
            \<or> js_includes errorMessage ''No token'' = Some True
            \<or> js_includes errorMessage ''Token not found'' = Some True
            \<or> js_includes errorMessage ''Not authenticated'' = Some True))"

text \<open>The fulfilled interceptor: the first truthy of the places a fresh token may be at.\<close>

definition extract_token :: "jsval \<Rightarrow> jsval" where
  "extract_token d =
     or_else (get (get (get d ''data'') ''tokens'') ''accessToken'')
    (or_else (get (get d ''tokens'') ''accessToken'')
    (or_else (get (get d ''data'') ''accessToken'')
    (or_else (get d ''accessToken'')
    (or_else (and_then (get (get d ''data'') ''user'')
                (get (get (get d ''data'') ''tokens'') ''accessToken''))
             (and_then (get d ''user'') (get (get d ''tokens'') ''accessToken''))))))"

definition on_fulfilled :: "http_response \<Rightarrow> token_store \<Rightarrow> token_store" where
  "on_fulfilled r st = store_token (extract_token (data r)) st"

text \<open>
  The refresh call goes through the library itself, not the instance: no interceptor
  sees it. It gives the refresh body when the call is fulfilled (a 2xx status) and
  \<open>refreshResponse.data.success\<close> is truthy; a rejected call and a \<open>null\<close> body end
  in the \<open>catch\<close>, a falsy \<open>success\<close> falls through, and both reject the original
  error.
\<close>

definition refresh_data :: "net_outcome \<Rightarrow> jsval option" where
  "refresh_data out =
     (case out of
        NoResponse \<Rightarrow> None
      | Response rr \<Rightarrow>
          if 200 \<le> status rr \<and> status rr < 300 \<and> \<not> nullish (data rr)
             \<and> truthy (get (data rr) ''success'')
          then Some (data rr) else None)"

definition store_refreshed :: "jsval \<Rightarrow> token_store \<Rightarrow> token_store" where
  "store_refreshed refreshData st =
     (if truthy (get (get (get refreshData ''data'') ''tokens'') ''accessToken'')
      then store_token (get (get (get refreshData ''data'') ''tokens'') ''accessToken'') st
      else if truthy (get (get refreshData ''tokens'') ''accessToken'')
      then store_token (get (get refreshData ''tokens'') ''accessToken'') st
      else if truthy (get (get refreshData ''data'') ''accessToken'')
      then store_token (get (get refreshData ''data'') ''accessToken'') st
      else if truthy (get refreshData ''accessToken'')
      then store_token (get refreshData ''accessToken'') st
      else st)"

text \<open>
  \<open>axiosInstance(config)\<close> with its interceptors. \<open>net n\<close> is what the network answers
  to the \<open>n\<close>-th call that goes out. The request interceptor reads the token; a 2xx
  response goes to the fulfilled interceptor; everything else to the error interceptor,
  which on a 401 of a request not marked \<open>_retry\<close>, whose error text is no no-token
  text, marks the request, calls the refresh endpoint and, when that succeeded, returns
  \<open>axiosInstance(originalRequest)\<close>.
\<close>

function axiosInstance ::
  "(nat \<Rightarrow> net_outcome) \<Rightarrow> request_config \<Rightarrow> dispatch_state \<Rightarrow> axios_result \<times> dispatch_state"
where
  "axiosInstance net cfg ds =
     (let ds1 = ds\<lparr>store := snd (getAccessToken (store ds)),
                    sent := sent ds @ [Sent cfg (fst (getAccessToken (store ds)))]\<rparr> in
      case net (length (sent ds)) of
        NoResponse \<Rightarrow> (Rejected (AxiosError None cfg), ds1)
      | Response r \<Rightarrow>
          if 200 \<le> status r \<and> status r < 300
          then (Fulfilled r, ds1\<lparr>store := on_fulfilled r (store ds1)\<rparr>)
          else if status r = 401 \<and> \<not> retry cfg
          then (case isNoTokenError (or_else (get (data r) ''error'') (Str [])) of
                  None \<Rightarrow> (Rejected (TypeError ''errorMessage.includes is not a function''), ds1)
                | Some True \<Rightarrow> (Rejected (AxiosError (Some r) cfg), ds1)
                | Some False \<Rightarrow>
                    (case refresh_data (net (Suc (length (sent ds)))) of
                       None \<Rightarrow>
                         (Rejected (AxiosError (Some r) (cfg\<lparr>retry := True\<rparr>)),
                          ds1\<lparr>sent := sent ds1 @ [RefreshSent]\<rparr>)
                     | Some refreshData \<Rightarrow>
                         axiosInstance net (cfg\<lparr>retry := True\<rparr>)
                           (ds1\<lparr>store := store_refreshed refreshData (store ds1),
                                sent := sent ds1 @ [RefreshSent]\<rparr>)))
          else (Rejected (AxiosError (Some r) cfg), ds1))"
  by pat_completeness auto
termination
  by (relation "measure (\<lambda>(net, cfg, ds). if retry cfg then 0 else 1)") auto

declare axiosInstance.simps [simp del]

text \<open>What a call of the instance put on the network: the events it added, among them
  the refresh calls and the requests that went out marked \<open>_retry\<close>.\<close>

definition emitted :: "(nat \<Rightarrow> net_outcome) \<Rightarrow> request_config \<Rightarrow> dispatch_state \<Rightarrow> net_event list" where
  "emitted net cfg ds = drop (length (sent ds)) (sent (snd (axiosInstance net cfg ds)))"

fun is_refresh :: "net_event \<Rightarrow> bool" where
  "is_refresh RefreshSent = True"
| "is_refresh (Sent c t) = False"

fun is_replay :: "net_event \<Rightarrow> bool" where
  "is_replay (Sent c t) = retry c"
| "is_replay RefreshSent = False"

section \<open>The API client\<close>

text \<open>What an awaited call gives its caller: a value, or a thrown value.\<close>

datatype outcome = Returned jsval | Thrown jsval

text \<open>
  \<open>new Error(m)\<close>: an object whose \<open>message\<close> is \<open>m\<close> as a string. A string is its
  own conversion; \<open>conv\<close> stands for the engine's conversion of the other values.
\<close>

definition js_Error :: "(jsval \<Rightarrow> string) \<Rightarrow> jsval \<Rightarrow> jsval" where
  "js_Error conv m = Obj [(''message'', Str (case m of Str s \<Rightarrow> s | _ \<Rightarrow> conv m))]"

text \<open>The \<open>TypeError\<close> of a property read on \<open>null\<close> or \<open>undefined\<close>, and of a call of
  an \<open>includes\<close> that is not there. The wording of their messages is the engine's.\<close>

definition typeError_read :: jsval where
  "typeError_read = Obj [(''message'', Str ''Cannot read properties of null'')]"

definition typeError_includes :: jsval where
  "typeError_includes = Obj [(''message'', Str ''includes is not a function'')]"

definition error_envelope :: "jsval \<Rightarrow> outcome" where
  "error_envelope errorMessage = Returned (Obj [(''success'', Bool False), (''error'', errorMessage)])"

text \<open>
  \<open>handleError\<close>. Under a 401 the message is tested with \<open>errorMessage?.includes\<close>: a
  nullish message skips the test, a message with no \<open>includes\<close> makes it throw.
\<close>

fun handleError :: "thrown \<Rightarrow> outcome" where
  "handleError (AxiosError (Some r) cfg) =
     (let errorMessage = or_else (get (data r) ''error'') (get (data r) ''message'') in
      if status r = 401 then
        (if nullish errorMessage
         then error_envelope (or_else errorMessage (Str ''Authentication required. Please log in.''))
         else case isNoTokenError errorMessage of
                None \<Rightarrow> Thrown typeError_includes
              | Some True \<Rightarrow> error_envelope errorMessage
              | Some False \<Rightarrow>
                  error_envelope (or_else errorMessage (Str ''Authentication required. Please log in.'')))
      else if status r = 403 then
        error_envelope (or_else errorMessage (Str ''Access forbidden. You may not have permission.''))
      else if status r = 404 then
        error_envelope (or_else errorMessage
          (Str ''Route not found. The backend endpoint may not be implemented.''))
      else if status r = 500 then
        error_envelope (or_else errorMessage (Str ''Server error. Please check backend logs.''))
      else if \<not> truthy errorMessage then
        error_envelope (Str (''HTTP '' @ show_nat (status r) @ '': '' @ statusText r))
      else error_envelope errorMessage)"
| "handleError (AxiosError None cfg) =
     error_envelope (Str ''No response from server. Please check your connection and ensure the backend is running.'')"
| "handleError (TypeError m) =
     error_envelope (or_else (Str m) (Str ''An unexpected error occurred''))"

text \<open>\<open>apiClient.get\<close>, from the result of the instance's call.\<close>

fun apiClient_get :: "axios_result \<Rightarrow> outcome" where
  "apiClient_get (Fulfilled r) = Returned (data r)"
| "apiClient_get (Rejected e) = handleError e"

text \<open>
  \<open>apiClient.post\<close>. Its \<open>catch\<close> decides first whether to log: under a 401 of a URL
  without \<open>/auth/\<close> it calls \<open>error.response?.data?.error?.includes\<close>, which throws
  when the error field has no \<open>includes\<close>.
\<close>

fun post_log_throws :: "string \<Rightarrow> thrown \<Rightarrow> bool" where
  "post_log_throws u (AxiosError (Some r) cfg) =
     (status r = 401 \<and> \<not> str_includes u ''/auth/'' \<and> \<not> nullish (get (data r) ''error'')
      \<and> js_includes (get (data r) ''error'') ''No refresh token'' = None)"
| "post_log_throws u e = False"

fun apiClient_post :: "string \<Rightarrow> axios_result \<Rightarrow> outcome" where
  "apiClient_post u (Fulfilled r) = Returned (data r)"
| "apiClient_post u (Rejected e) =
     (if post_log_throws u e then Thrown typeError_includes else handleError e)"

section \<open>The authentication provider\<close>

text \<open>
  The state of \<open>AuthProvider\<close>: the two \<open>useState\<close> cells, the three \<open>useRef\<close> guards,
  the token store, and the calls made to the API client so far (method, URL, body).
  \<open>user\<close> is \<open>Null\<close> for \<open>null\<close>.
\<close>

record provider =
  user :: jsval
  isLoading :: bool
  isCheckingAuth :: bool
  isLoggingIn :: bool
  isSigningUp :: bool
  tokens :: token_store
  requests :: "(string \<times> string \<times> jsval) list"

text \<open>\<open>const isAuthenticated = !isLoading && !!user\<close>\<close>

definition isAuthenticated :: "provider \<Rightarrow> bool" where
  "isAuthenticated p = (\<not> isLoading p \<and> truthy (user p))"

text \<open>
  An operation runs until its next \<open>await\<close>. A task is an operation suspended there,
  with what it holds: the response it will return, for \<open>login\<close> and \<open>signup\<close> after
  they located the user.
\<close>

datatype task =
    CheckAuth_me
  | Login_post
  | Login_delay jsval
  | Login_me jsval
  | Login_return jsval
  | Signup_post
  | Signup_delay jsval
  | Signup_me jsval
  | Signup_return jsval
  | Logout_post
  | Refresh_post

datatype progress = Pending task | Done outcome

subsection \<open>checkAuth\<close>

definition checkAuth_call :: "provider \<Rightarrow> progress \<times> provider" where
  "checkAuth_call p =
     (if isCheckingAuth p then (Done (Returned Undefined), p)
      else (Pending CheckAuth_me,
            p\<lparr>isCheckingAuth := True, isLoading := True,
              requests := requests p @ [(''GET'', ''/api/auth/me'', Undefined)]\<rparr>))"

text \<open>
  After the GET: \<open>response.success\<close> on a nullish response throws and ends in the
  \<open>catch\<close>, as a thrown call does. The \<open>else\<close> branch decides what to log, which may
  throw as well; every one of these ways ends in \<open>setUser(null)\<close>, and \<open>finally\<close>
  follows.
\<close>

definition checkAuth_resume :: "outcome \<Rightarrow> provider \<Rightarrow> provider" where
  "checkAuth_resume out p =
     (let p1 =
        (case out of
           Thrown e \<Rightarrow> p\<lparr>user := Null\<rparr>
         | Returned response \<Rightarrow>
             if nullish response then p\<lparr>user := Null\<rparr>
             else if get response ''success'' = Bool True
                     \<and> truthy (get (get response ''data'') ''user'')
             then p\<lparr>user := get (get response ''data'') ''user''\<rparr>
             else p\<lparr>user := Null\<rparr>)
      in p1\<lparr>isLoading := False, isCheckingAuth := False\<rparr>)"

subsection \<open>login and signup\<close>

text \<open>The user object the source builds, written out there in each of its cases.\<close>

definition canonical_user :: "jsval \<Rightarrow> jsval" where
  "canonical_user u =
     Obj [(''_id'', or_else (get u ''_id'') (get u ''id'')),
          (''email'', get u ''email''),
          (''username'', get u ''username''),
          (''oauthProviders'', get u ''oauthProviders''),
          (''createdAt'', get u ''createdAt''),
          (''updatedAt'', get u ''updatedAt'')]"

definition auth_response :: "jsval \<Rightarrow> jsval \<Rightarrow> jsval" where
  "auth_response userData toks =
     Obj [(''success'', Bool True), (''user'', userData), (''tokens'', toks)]"

text \<open>
  Where \<open>login\<close> looks for the user in a truthy \<open>response.data\<close>: under \<open>user\<close>, on
  the payload itself, under \<open>data.user\<close>. The result is \<open>userData\<close> and the token pair
  found with it.
\<close>

definition login_locate :: "jsval \<Rightarrow> (jsval \<times> jsval) option" where
  "login_locate d =
     (if truthy (get d ''user'') \<and> typeof_object (get d ''user'')
      then Some (canonical_user (get d ''user''), get d ''tokens'')
      else if truthy (get d ''email'') \<and> truthy (get d ''username'')
      then Some (canonical_user d, get d ''tokens'')
      else if truthy (get d ''data'') \<and> truthy (get (get d ''data'') ''user'')
      then Some (canonical_user (get (get d ''data'') ''user''),
                 or_else (get (get d ''data'') ''tokens'') (get d ''tokens''))
      else None)"

text \<open>\<open>signup\<close> looks in the first two places.\<close>

definition signup_locate :: "jsval \<Rightarrow> (jsval \<times> jsval) option" where
  "signup_locate d =
     (if truthy (get d ''user'') \<and> typeof_object (get d ''user'')
      then Some (canonical_user (get d ''user''), get d ''tokens'')
      else if truthy (get d ''email'') \<and> truthy (get d ''username'')
      then Some (canonical_user d, get d ''tokens'')
      else None)"

definition login_call :: "string \<Rightarrow> string \<Rightarrow> provider \<Rightarrow> progress \<times> provider" where
  "login_call email password p =
     (if isLoggingIn p
      then (Done (Returned (Obj [(''success'', Bool False),
                                 (''error'', Str ''Login already in progress'')])), p)
      else (Pending Login_post,
            p\<lparr>isLoggingIn := True, isLoading := True,
              requests := requests p @
                [(''POST'', ''/api/auth/login'',
                  Obj [(''email'', Str email), (''password'', Str password)])]\<rparr>))"

text \<open>The \<open>catch\<close> and \<open>finally\<close> of \<open>login\<close>. Reading \<open>error.message\<close> of a nullish
  thrown value throws out of the \<open>catch\<close>; \<open>finally\<close> runs all the same.\<close>

definition login_catch :: "jsval \<Rightarrow> provider \<Rightarrow> progress \<times> provider" where
  "login_catch e p =
     (Done (if nullish e then Thrown typeError_read
            else Returned (Obj [(''success'', Bool False),
                   (''error'', or_else (get e ''message'')
                                (or_else (get e ''error'') (Str ''Login failed'')))])),
      p\<lparr>user := Null, isLoading := False, isLoggingIn := False\<rparr>)"

definition login_resume_post ::
  "(jsval \<Rightarrow> string) \<Rightarrow> outcome \<Rightarrow> provider \<Rightarrow> progress \<times> provider" where
  "login_resume_post conv out p =
     (case out of
        Thrown e \<Rightarrow> login_catch e p
      | Returned response \<Rightarrow>
          if nullish response then login_catch typeError_read p
          else if truthy (get response ''success'') then
            (case (if truthy (get response ''data'') then login_locate (get response ''data'')
                   else None) of
               Some (userData, toks) \<Rightarrow>
                 (Pending (Login_delay (auth_response userData toks)),
                  p\<lparr>user := userData,
                    tokens := store_token (get toks ''accessToken'') (tokens p)\<rparr>)
             | None \<Rightarrow>
                 login_catch (js_Error conv (Str
                   ''Login successful but no user data received. Check console for response structure.'')) p)
          else login_catch (js_Error conv (or_else (get response ''error'') (Str ''Login failed''))) p)"

text \<open>After the 200 ms: \<open>await checkAuth()\<close>, which returns at once under its guard.\<close>

definition login_resume_delay :: "jsval \<Rightarrow> provider \<Rightarrow> progress \<times> provider" where
  "login_resume_delay authResponse p =
     (case fst (checkAuth_call p) of
        Pending t \<Rightarrow> (Pending (Login_me authResponse), snd (checkAuth_call p))
      | Done r \<Rightarrow> (Pending (Login_return authResponse), snd (checkAuth_call p)))"

definition login_resume_me :: "jsval \<Rightarrow> outcome \<Rightarrow> provider \<Rightarrow> progress \<times> provider" where
  "login_resume_me authResponse out p = (Pending (Login_return authResponse), checkAuth_resume out p)"

definition login_return :: "jsval \<Rightarrow> provider \<Rightarrow> progress \<times> provider" where
  "login_return authResponse p =
     (Done (Returned authResponse), p\<lparr>isLoading := False, isLoggingIn := False\<rparr>)"

definition signup_call :: "string \<Rightarrow> string \<Rightarrow> string \<Rightarrow> provider \<Rightarrow> progress \<times> provider" where
  "signup_call email uname password p =
     (if isSigningUp p
      then (Done (Returned (Obj [(''success'', Bool False),
                                 (''error'', Str ''Signup already in progress'')])), p)
      else (Pending Signup_post,
            p\<lparr>isSigningUp := True, isLoading := True,
              requests := requests p @
                [(''POST'', ''/api/auth/signup'',
                  Obj [(''email'', Str email), (''username'', Str uname),
                       (''password'', Str password)])]\<rparr>))"

definition signup_catch :: "jsval \<Rightarrow> provider \<Rightarrow> progress \<times> provider" where
  "signup_catch e p =
     (Done (if nullish e then Thrown typeError_read
            else Returned (Obj [(''success'', Bool False),
                   (''error'', or_else (get e ''message'')
                                (or_else (get e ''error'') (Str ''Signup failed'')))])),
      p\<lparr>user := Null, isLoading := False, isSigningUp := False\<rparr>)"

definition signup_resume_post ::
  "(jsval \<Rightarrow> string) \<Rightarrow> outcome \<Rightarrow> provider \<Rightarrow> progress \<times> provider" where
  "signup_resume_post conv out p =
     (case out of
        Thrown e \<Rightarrow> signup_catch e p
      | Returned response \<Rightarrow>
          if nullish response then signup_catch typeError_read p
          else if truthy (get response ''success'') \<and> truthy (get response ''data'') then
            (case signup_locate (get response ''data'') of
               Some (userData, toks) \<Rightarrow>
                 (Pending (Signup_delay (auth_response userData toks)),
                  p\<lparr>user := userData,
                    tokens := store_token (get toks ''accessToken'') (tokens p)\<rparr>)
             | None \<Rightarrow>
                 signup_catch (js_Error conv (or_else (get (get response ''data'') ''error'')
                   (Str ''Signup failed - no user data received''))) p)
          else signup_catch (js_Error conv (or_else (get response ''error'') (Str ''Signup failed''))) p)"

definition signup_resume_delay :: "jsval \<Rightarrow> provider \<Rightarrow> progress \<times> provider" where
  "signup_resume_delay authResponse p =
     (case fst (checkAuth_call p) of
        Pending t \<Rightarrow> (Pending (Signup_me authResponse), snd (checkAuth_call p))
      | Done r \<Rightarrow> (Pending (Signup_return authResponse), snd (checkAuth_call p)))"

definition signup_resume_me :: "jsval \<Rightarrow> outcome \<Rightarrow> provider \<Rightarrow> progress \<times> provider" where
  "signup_resume_me authResponse out p = (Pending (Signup_return authResponse), checkAuth_resume out p)"

definition signup_return :: "jsval \<Rightarrow> provider \<Rightarrow> progress \<times> provider" where
  "signup_return authResponse p =
     (Done (Returned authResponse), p\<lparr>isLoading := False, isSigningUp := False\<rparr>)"

subsection \<open>logout and refreshToken\<close>

definition logout_call :: "provider \<Rightarrow> progress \<times> provider" where
  "logout_call p =
     (Pending Logout_post,
      p\<lparr>requests := requests p @ [(''POST'', ''/api/auth/logout'', Undefined)]\<rparr>)"

text \<open>Whatever the call gave, and when it threw: \<open>finally\<close>.\<close>

definition logout_resume :: "outcome \<Rightarrow> provider \<Rightarrow> progress \<times> provider" where
  "logout_resume out p =
     (Done (Returned Undefined), p\<lparr>user := Null, tokens := setAccessToken None (tokens p)\<rparr>)"

definition refreshToken_call :: "provider \<Rightarrow> progress \<times> provider" where
  "refreshToken_call p =
     (Pending Refresh_post,
      p\<lparr>requests := requests p @ [(''POST'', ''/api/auth/refresh'', Undefined)]\<rparr>)"

text \<open>\<open>return response.success || false\<close>; the \<open>catch\<close> is entered when the call threw,
  and when \<open>response\<close> is nullish.\<close>

definition refreshToken_resume :: "outcome \<Rightarrow> provider \<Rightarrow> progress \<times> provider" where
  "refreshToken_resume out p =
     (case out of
        Thrown e \<Rightarrow> (Done (Returned (Bool False)), p\<lparr>user := Null\<rparr>)
      | Returned response \<Rightarrow>
          if nullish response then (Done (Returned (Bool False)), p\<lparr>user := Null\<rparr>)
          else (Done (Returned (or_else (get response ''success'') (Bool False))), p))"

subsection \<open>The provider as a state machine\<close>

text \<open>A suspended operation goes on when what it awaits arrives: the outcome of its
  API call, the timer, or the return of the \<open>checkAuth\<close> it called.\<close>

fun resume :: "(jsval \<Rightarrow> string) \<Rightarrow> task \<Rightarrow> outcome \<Rightarrow> provider \<Rightarrow> progress \<times> provider" where
  "resume conv CheckAuth_me out p = (Done (Returned Undefined), checkAuth_resume out p)"
| "resume conv Login_post out p = login_resume_post conv out p"
| "resume conv (Login_delay a) out p = login_resume_delay a p"
| "resume conv (Login_me a) out p = login_resume_me a out p"
| "resume conv (Login_return a) out p = login_return a p"
| "resume conv Signup_post out p = signup_resume_post conv out p"
| "resume conv (Signup_delay a) out p = signup_resume_delay a p"
| "resume conv (Signup_me a) out p = signup_resume_me a out p"
| "resume conv (Signup_return a) out p = signup_return a p"
| "resume conv Logout_post out p = logout_resume out p"
| "resume conv Refresh_post out p = refreshToken_resume out p"

text \<open>The effect run on mount: the session entry, if any, goes to the token store, and
  \<open>checkAuth\<close> is called.\<close>

definition mount :: "provider \<Rightarrow> progress \<times> provider" where
  "mount p =
     checkAuth_call
       (p\<lparr>tokens :=
           (case sessionStorage (tokens p) of
              None \<Rightarrow> tokens p
            | Some storedToken \<Rightarrow>
                if present storedToken then setAccessToken storedToken (tokens p)
                else tokens p)\<rparr>)"

text \<open>
  What can happen to a provider: the mount effect, a call of one of its five operations,
  the resumption of the \<open>i\<close>-th suspended operation with an outcome, and the
  interceptors of the dispatcher storing a token they found in a response, or reading
  the token for a request.
\<close>

datatype event =
    Mount
  | CallCheckAuth
  | CallLogin string string
  | CallSignup string string string
  | CallLogout
  | CallRefreshToken
  | Resume nat outcome
  | Intercept string
  | ReadToken

type_synonym system = "provider \<times> task list"

fun spawn :: "progress \<times> provider \<Rightarrow> task list \<Rightarrow> system" where
  "spawn (Pending t, p) ts = (p, ts @ [t])"
| "spawn (Done r, p) ts = (p, ts)"

fun continue :: "nat \<Rightarrow> progress \<times> provider \<Rightarrow> task list \<Rightarrow> system" where
  "continue i (Pending t, p) ts = (p, ts[i := t])"
| "continue i (Done r, p) ts = (p, take i ts @ drop (Suc i) ts)"

fun exec :: "(jsval \<Rightarrow> string) \<Rightarrow> event \<Rightarrow> system \<Rightarrow> system" where
  "exec conv Mount (p, ts) = spawn (mount p) ts"
| "exec conv CallCheckAuth (p, ts) = spawn (checkAuth_call p) ts"
| "exec conv (CallLogin email password) (p, ts) = spawn (login_call email password p) ts"
| "exec conv (CallSignup email uname password) (p, ts) =
     spawn (signup_call email uname password p) ts"
| "exec conv CallLogout (p, ts) = spawn (logout_call p) ts"
| "exec conv CallRefreshToken (p, ts) = spawn (refreshToken_call p) ts"
| "exec conv (Resume i out) (p, ts) =
     (if i < length ts then continue i (resume conv (ts ! i) out p) ts else (p, ts))"
| "exec conv (Intercept t) (p, ts) =
     (if t \<noteq> [] then (p\<lparr>tokens := setAccessToken (Some t) (tokens p)\<rparr>, ts) else (p, ts))"
| "exec conv ReadToken (p, ts) = (p\<lparr>tokens := snd (getAccessToken (tokens p))\<rparr>, ts)"

definition run :: "(jsval \<Rightarrow> string) \<Rightarrow> event list \<Rightarrow> system \<Rightarrow> system" where
  "run conv evs s = foldl (\<lambda>s e. exec conv e s) s evs"

text \<open>\<open>useState(null)\<close>, \<open>useState(true)\<close>, \<open>useRef(false)\<close> three times; nothing
  suspended, nothing requested.\<close>

definition initial :: "token_store \<Rightarrow> system" where
  "initial st =
     (\<lparr>user = Null, isLoading = True, isCheckingAuth = False, isLoggingIn = False,
       isSigningUp = False, tokens = st, requests = []\<rparr>, [])"

fun is_login :: "task \<Rightarrow> bool" where
  "is_login Login_post = True"
| "is_login (Login_delay a) = True"
| "is_login (Login_me a) = True"
| "is_login (Login_return a) = True"
| "is_login t = False"

fun is_signup :: "task \<Rightarrow> bool" where
  "is_signup Signup_post = True"
| "is_signup (Signup_delay a) = True"
| "is_signup (Signup_me a) = True"
| "is_signup (Signup_return a) = True"
| "is_signup t = False"

fun awaits_me :: "task \<Rightarrow> bool" where
  "awaits_me CheckAuth_me = True"
| "awaits_me (Login_me a) = True"
| "awaits_me (Signup_me a) = True"
| "awaits_me t = False"

text \<open>Each guard is up exactly while one operation it guards is suspended, and the
  user cell holds \<open>null\<close> or a truthy value.\<close>

definition guards_ok :: "system \<Rightarrow> bool" where
  "guards_ok s =
     (length (filter is_login (snd s)) = (if isLoggingIn (fst s) then 1 else 0)
      \<and> length (filter is_signup (snd s)) = (if isSigningUp (fst s) then 1 else 0)
      \<and> length (filter awaits_me (snd s)) = (if isCheckingAuth (fst s) then 1 else 0)
      \<and> (user (fst s) = Null \<or> truthy (user (fst s))))"

section \<open>Chat history timestamps\<close>

text \<open>
  \<open>new Date(n)\<close> for a number: a time value within 8.64e15 ms of the epoch, the invalid
  date otherwise. \<open>n * 1000\<close> and \<open>n > k\<close> on numbers. \<open>new Date(s)\<close> for a string is
  the engine's parser, a parameter \<open>parse\<close>; \<open>new Date()\<close> is the current time \<open>now\<close>.
\<close>

fun timeClip :: "jsnum \<Rightarrow> jsdate" where
  "timeClip (Fin n) = (if \<bar>n\<bar> \<le> 8640000000000000 then Some n else None)"
| "timeClip v = None"

fun times :: "jsnum \<Rightarrow> int \<Rightarrow> jsnum" where
  "times (Fin n) k = Fin (n * k)"
| "times v k = v"

fun greater :: "jsnum \<Rightarrow> int \<Rightarrow> bool" where
  "greater (Fin n) k = (n > k)"
| "greater PosInf k = True"
| "greater v k = False"

text \<open>The \<open>if\<close> chain on \<open>dateValue\<close>: a \<open>Date\<close>, a string, a number in seconds or in
  milliseconds, anything else.\<close>

fun parseTimestamp :: "int \<Rightarrow> (string \<Rightarrow> jsdate) \<Rightarrow> jsval \<Rightarrow> jsdate" where
  "parseTimestamp now parse (DateObj d) = d"
| "parseTimestamp now parse (Str s) = parse s"
| "parseTimestamp now parse (Num n) =
     timeClip (if greater n 1000000000000 then n else times n 1000)"
| "parseTimestamp now parse v = Some now"

text \<open>\<open>if (isNaN(timestamp.getTime())) timestamp = new Date()\<close>\<close>

definition normalizeTimestamp :: "int \<Rightarrow> (string \<Rightarrow> jsdate) \<Rightarrow> jsval \<Rightarrow> jsdate" where
  "normalizeTimestamp now parse dateValue =
     (case parseTimestamp now parse dateValue of None \<Rightarrow> Some now | Some t \<Rightarrow> Some t)"

text \<open>\<open>{...msg, timestamp}\<close> for a message object: its properties, with \<open>timestamp\<close>
  set.\<close>

fun set_property :: "string \<Rightarrow> jsval \<Rightarrow> (string \<times> jsval) list \<Rightarrow> (string \<times> jsval) list" where
  "set_property k v [] = [(k, v)]"
| "set_property k v ((k', v') # kvs) =
     (if k' = k then (k, v) # kvs else (k', v') # set_property k v kvs)"

definition loadedMessage :: "int \<Rightarrow> (string \<Rightarrow> jsdate) \<Rightarrow> (string \<times> jsval) list \<Rightarrow> jsval" where
  "loadedMessage now parse msg =
     Obj (set_property ''timestamp''
            (DateObj (normalizeTimestamp now parse
               (or_else (get (Obj msg) ''createdAt'') (get (Obj msg) ''timestamp''))))
            msg)"

section \<open>The sync request schema and the route that uses it\<close>

text \<open>
  \<open>syncRequestSchema\<close> is given the body of the request as it was parsed: any value.
  The object schema wants an object and checks each of its four optional fields, by type
  and then by its own rule; the transformation and the two refinements follow on an input
  whose fields passed. An input whose fields did not pass is rejected with the issues of
  its fields first (one issue stands for the issues of a field), and is not transformed.
  The finite numbers of the model are integers, so \<open>int()\<close> holds of them and fails on
  the infinities.

  What is left to the validation library is a parameter: whether it still runs the
  refinements on an input with a field that failed its rule (never with one of the wrong
  type), reporting their issues after those of the fields; whether its error holds the
  array \<open>errors\<close> the route reads; and the wording of its own messages.
\<close>

datatype issue = TypeIssue string | FieldIssue string | Custom string string

record validator =
  refines_failed :: bool
  errors_array :: bool
  default_message :: "issue \<Rightarrow> string"
  error_message :: "issue list \<Rightarrow> string"

text \<open>\<open>z.boolean().optional()\<close>, \<open>z.string().min(1).max(50).optional()\<close> and
  \<open>z.number().int().positive().optional()\<close> on the value of the field \<open>k\<close>.\<close>

fun boolean_optional :: "string \<Rightarrow> jsval \<Rightarrow> issue list" where
  "boolean_optional k Undefined = []"
| "boolean_optional k (Bool b) = []"
| "boolean_optional k v = [TypeIssue k]"

fun name_optional :: "string \<Rightarrow> jsval \<Rightarrow> issue list" where
  "name_optional k Undefined = []"
| "name_optional k (Str s) = (if length s < 1 \<or> 50 < length s then [FieldIssue k] else [])"
| "name_optional k v = [TypeIssue k]"

fun id_optional :: "string \<Rightarrow> jsval \<Rightarrow> issue list" where
  "id_optional k Undefined = []"
| "id_optional k (Num (Fin n)) = (if 0 < n then [] else [FieldIssue k])"
| "id_optional k (Num NaN) = [TypeIssue k]"
| "id_optional k (Num PosInf) = [FieldIssue k]"
| "id_optional k (Num NegInf) = [FieldIssue k]"
| "id_optional k v = [TypeIssue k]"

definition field_issues :: "jsval \<Rightarrow> issue list" where
  "field_issues body =
     boolean_optional ''force'' (get body ''force'')
     @ name_optional ''username'' (get body ''username'')
     @ name_optional ''anilistUsername'' (get body ''anilistUsername'')
     @ id_optional ''userId'' (get body ''userId'')"

fun is_type_issue :: "issue \<Rightarrow> bool" where
  "is_type_issue (TypeIssue k) = True"
| "is_type_issue i = False"

text \<open>The parsed object: the fields of the schema that are there, and no other.\<close>

definition parsed :: "jsval \<Rightarrow> (string \<times> jsval) list" where
  "parsed body =
     concat (map (\<lambda>k. if get body k = Undefined then [] else [(k, get body k)])
       [''force'', ''username'', ''anilistUsername'', ''userId''])"

text \<open>The transformation: \<open>{...data, username: data.anilistUsername}\<close> where
  \<open>anilistUsername\<close> is truthy and \<open>username\<close> is not.\<close>

definition transformed :: "(string \<times> jsval) list \<Rightarrow> (string \<times> jsval) list" where
  "transformed d =
     (if truthy (get (Obj d) ''anilistUsername'') \<and> \<not> truthy (get (Obj d) ''username'')
      then set_property ''username'' (get (Obj d) ''anilistUsername'') d else d)"

definition refinement_issues :: "(string \<times> jsval) list \<Rightarrow> issue list" where
  "refinement_issues d =
     (if \<not> truthy (get (Obj d) ''username'') \<or> \<not> truthy (get (Obj d) ''userId'') then []
      else [Custom ''Cannot provide both username and userId'' ''userId''])
     @ (if truthy (get (Obj d) ''username'') \<or> truthy (get (Obj d) ''userId'') then []
        else [Custom ''Either username or userId must be provided to sync a public profile''
                ''username''])"

fun syncRequestSchema :: "validator \<Rightarrow> jsval \<Rightarrow> issue list + jsval" where
  "syncRequestSchema lib (Obj kvs) =
     (if field_issues (Obj kvs) \<noteq> []
      then Inl (field_issues (Obj kvs)
                @ (if refines_failed lib \<and> filter is_type_issue (field_issues (Obj kvs)) = []
                   then refinement_issues (parsed (Obj kvs)) else []))
      else if refinement_issues (transformed (parsed (Obj kvs))) \<noteq> []
      then Inl (refinement_issues (transformed (parsed (Obj kvs))))
      else Inr (Obj (transformed (parsed (Obj kvs)))))"
| "syncRequestSchema lib v = Inl [TypeIssue []]"

text \<open>
  The route \<open>POST /api/anilist/sync\<close>, from the body of the request on. Its calls to
  the list service are \<open>getUserIdByUsername\<close> and \<open>fetchUserAnimeList\<close>; what the
  service answers is a parameter: the message of the error thrown, or the user id and
  the length of the list. The route returns a status with a body, and the model returns
  with them the calls made, in order.
\<close>

datatype service_call = UserIdLookup jsval | ListFetch jsval

record service =
  getUserIdByUsername :: "jsval \<Rightarrow> string + int"
  fetchUserAnimeList :: "jsval \<Rightarrow> string + nat"

definition failure :: "jsval \<Rightarrow> jsval" where
  "failure errorMessage = Obj [(''success'', Bool False), (''error'', errorMessage)]"

text \<open>\<open>validationError.errors[0]?.message || 'Validation error'\<close>\<close>

fun first_message :: "validator \<Rightarrow> issue list \<Rightarrow> jsval" where
  "first_message lib [] = Str ''Validation error''"
| "first_message lib (Custom m path # issues) = or_else (Str m) (Str ''Validation error'')"
| "first_message lib (i # issues) = or_else (Str (default_message lib i)) (Str ''Validation error'')"

text \<open>The inner \<open>catch\<close>: 404 and 403 by the text of the message, and otherwise the
  outer \<open>catch\<close> with its 500.\<close>

definition service_failed :: "string \<Rightarrow> service_call list \<Rightarrow> (nat \<times> jsval) \<times> service_call list" where
  "service_failed m calls =
     (if str_includes m ''not found'' then ((404, failure (Str m)), calls)
      else if str_includes m ''private'' then ((403, failure (Str m)), calls)
      else ((500, failure (or_else (Str m) (Str ''Failed to sync anime list''))), calls))"

definition synced :: "nat \<Rightarrow> jsval \<Rightarrow> jsval \<Rightarrow> jsval" where
  "synced n sourceUsername sourceUserId =
     Obj [(''success'', Bool True),
          (''data'', Obj [(''success'', Bool True), (''synced'', Num (Fin (int n))),
                          (''sourceUsername'', sourceUsername),
                          (''sourceUserId'', sourceUserId)])]"

definition POST :: "validator \<Rightarrow> service \<Rightarrow> jsval \<Rightarrow> (nat \<times> jsval) \<times> service_call list" where
  "POST lib env body =
     (case syncRequestSchema lib body of
        Inl issues \<Rightarrow>
          if errors_array lib then ((400, failure (first_message lib issues)), [])
          else ((500, failure (or_else (Str (error_message lib issues))
                                 (Str ''Failed to sync anime list''))), [])
      | Inr validated \<Rightarrow>
          if truthy (get validated ''username'') then
            (case getUserIdByUsername env (get validated ''username'') of
               Inl m \<Rightarrow> service_failed m [UserIdLookup (get validated ''username'')]
             | Inr sourceUserId \<Rightarrow>
                 (case fetchUserAnimeList env (Obj [(''username'', get validated ''username'')]) of
                    Inl m \<Rightarrow>
                      service_failed m
                        [UserIdLookup (get validated ''username''),
                         ListFetch (Obj [(''username'', get validated ''username'')])]
                  | Inr n \<Rightarrow>
                      ((200, synced n (get validated ''username'') (Num (Fin sourceUserId))),
                       [UserIdLookup (get validated ''username''),
                        ListFetch (Obj [(''username'', get validated ''username'')])])))
          else if truthy (get validated ''userId'') then
            (case fetchUserAnimeList env (Obj [(''userId'', get validated ''userId'')]) of
               Inl m \<Rightarrow> service_failed m [ListFetch (Obj [(''userId'', get validated ''userId'')])]
             | Inr n \<Rightarrow>
                 ((200, synced n Undefined (get validated ''userId'')),
                  [ListFetch (Obj [(''userId'', get validated ''userId'')])]))
          else
            ((400, failure (Str
               ''Either username or userId must be provided, or an API key must be stored for syncing your own profile'')),
             []))"

text \<open>What the caller provided: a user name under either of its two field names, a
  user id; and an input whose fields all pass.\<close>

definition has_name :: "jsval \<Rightarrow> bool" where
  "has_name body = (get body ''username'' \<noteq> Undefined \<or> get body ''anilistUsername'' \<noteq> Undefined)"

definition has_id :: "jsval \<Rightarrow> bool" where
  "has_id body = (get body ''userId'' \<noteq> Undefined)"

fun fields_pass :: "jsval \<Rightarrow> bool" where
  "fields_pass (Obj kvs) = (field_issues (Obj kvs) = [])"
| "fields_pass v = False"

section \<open>Response layouts\<close>

text \<open>
  The three layouts a success response may carry a user and a token pair in: under
  \<open>user\<close> and \<open>tokens\<close>, with the user's fields on the payload itself beside
  \<open>tokens\<close>, and one level down under \<open>data\<close>. \<open>props\<close> are the fields of the user.
\<close>

definition layout_top :: "jsval \<Rightarrow> jsval \<Rightarrow> jsval" where
  "layout_top u tk = Obj [(''user'', u), (''tokens'', tk)]"

definition layout_flat :: "(string \<times> jsval) list \<Rightarrow> jsval \<Rightarrow> jsval" where
  "layout_flat props tk = Obj (props @ [(''tokens'', tk)])"

definition layout_nested :: "jsval \<Rightarrow> jsval \<Rightarrow> jsval" where
  "layout_nested u tk = Obj [(''data'', Obj [(''user'', u), (''tokens'', tk)])]"

definition success_response :: "jsval \<Rightarrow> jsval" where
  "success_response d = Obj [(''success'', Bool True), (''data'', d)]"

section \<open>Sample inputs\<close>

text \<open>A browser with an empty token store, a user as a backend sends it (its identifier
  under \<open>id\<close>), a token pair, and the responses and states the examples below run on.\<close>

definition browser_store :: token_store where
  "browser_store = \<lparr>accessToken = None, sessionStorage = Some None\<rparr>"

definition alice :: jsval where
  "alice = Obj [(''id'', Str ''u1''), (''email'', Str ''alice@example.com''),
                (''username'', Str ''alice'')]"

definition alice_tokens :: jsval where
  "alice_tokens = Obj [(''accessToken'', Str ''tok1''), (''refreshToken'', Str ''ref1'')]"

definition login_ok_response :: jsval where
  "login_ok_response =
     Obj [(''success'', Bool True), (''data'', Obj [(''user'', alice), (''tokens'', alice_tokens)])]"

definition me_response :: jsval where
  "me_response = Obj [(''success'', Bool True), (''data'', Obj [(''user'', alice)])]"

definition nested_response :: jsval where
  "nested_response =
     Obj [(''success'', Bool True),
          (''data'', Obj [(''data'', Obj [(''user'', alice), (''tokens'', alice_tokens)])])]"

definition signing_up :: provider where
  "signing_up =
     \<lparr>user = Null, isLoading = True, isCheckingAuth = False, isLoggingIn = False,
      isSigningUp = True, tokens = browser_store,
      requests = [(''POST'', ''/api/auth/signup'',
                   Obj [(''email'', Str ''alice@example.com''), (''username'', Str ''alice''),
                        (''password'', Str ''pw'')])]\<rparr>"

definition logging_in :: provider where
  "logging_in =
     \<lparr>user = Null, isLoading = True, isCheckingAuth = False, isLoggingIn = True,
      isSigningUp = False, tokens = browser_store,
      requests = [(''POST'', ''/api/auth/login'',
                   Obj [(''email'', Str ''alice@example.com''), (''password'', Str ''pw'')])]\<rparr>"

definition logged_in :: provider where
  "logged_in =
     \<lparr>user = canonical_user alice, isLoading = False, isCheckingAuth = False,
      isLoggingIn = False, isSigningUp = False,
      tokens = \<lparr>accessToken = Some ''tok1'', sessionStorage = Some (Some ''tok1'')\<rparr>,
      requests = [(''POST'', ''/api/auth/refresh'', Undefined)]\<rparr>"

definition refresh_401 :: http_response where
  "refresh_401 =
     \<lparr>status = 401, statusText = ''Unauthorized'',
      data = Obj [(''success'', Bool False), (''error'', Str ''Invalid refresh token'')]\<rparr>"

definition refresh_request :: request_config where
  "refresh_request = \<lparr>http_method = ''POST'', url = ''/api/auth/refresh'', retry = False\<rparr>"

definition expired_401 :: http_response where
  "expired_401 =
     \<lparr>status = 401, statusText = ''Unauthorized'',
      data = Obj [(''success'', Bool False), (''error'', Str ''Token expired'')]\<rparr>"

definition refreshed_200 :: http_response where
  "refreshed_200 =
     \<lparr>status = 200, statusText = ''OK'',
      data = Obj [(''success'', Bool True),
                  (''data'', Obj [(''tokens'', Obj [(''accessToken'', Str ''tok2'')])])]\<rparr>"

definition history_request :: request_config where
  "history_request = \<lparr>http_method = ''GET'', url = ''/api/chat/history?limit=50'', retry = False\<rparr>"

text \<open>A network that answers 401 to everything but the refresh call, its second call.\<close>

definition expired_net :: "nat \<Rightarrow> net_outcome" where
  "expired_net n = (if n = 1 then Response refreshed_200 else Response expired_401)"

definition logged_in_wire :: dispatch_state where
  "logged_in_wire =
     \<lparr>store = \<lparr>accessToken = Some ''tok1'', sessionStorage = Some (Some ''tok1'')\<rparr>, sent = []\<rparr>"

definition sync_none :: jsval where
  "sync_none = Obj [(''force'', Bool True)]"

definition sync_both :: jsval where
  "sync_both =
     Obj [(''force'', Bool True), (''anilistUsername'', Str ''alice''), (''userId'', Num (Fin 42))]"

definition sync_long :: jsval where
  "sync_long =
     Obj [(''force'', Bool True), (''anilistUsername'', Str (replicate 51 CHR ''a'')),
          (''userId'', Num (Fin 42))]"

definition sync_mistyped :: jsval where
  "sync_mistyped = Obj [(''force'', Str ''yes'')]"

definition sync_name :: jsval where
  "sync_name =
     Obj [(''force'', Bool True), (''username'', Str ''alice''), (''anilistUsername'', Str ''alice'')]"

text \<open>The two ways of the validation library, and a list service that knows \<open>alice\<close>.\<close>

definition lib_refining :: validator where
  "lib_refining =
     \<lparr>refines_failed = True, errors_array = True, default_message = (\<lambda>i. ''Invalid input''),
      error_message = (\<lambda>issues. ''Invalid input'')\<rparr>"

definition lib_stopping :: validator where
  "lib_stopping =
     \<lparr>refines_failed = False, errors_array = False, default_message = (\<lambda>i. ''Invalid input''),
      error_message = (\<lambda>issues. ''Invalid input'')\<rparr>"

definition list_service :: service where
  "list_service =
     \<lparr>getUserIdByUsername = (\<lambda>u. if u = Str ''alice'' then Inr 7 else Inl ''User not found''),
      fetchUserAnimeList = (\<lambda>options. Inr 12)\<rparr>"

section \<open>The token store: set and get\<close>

text \<open>
  C10, as amended. A token that is not the empty string is what \<open>getAccessToken\<close>
  returns after \<open>setAccessToken\<close> stored it. After \<open>setAccessToken(null)\<close> the slot is
  \<open>null\<close>, the session entry is gone, \<open>getAccessToken\<close> returns \<open>null\<close> and leaves
  the slot \<open>null\<close>: the fallback on the session entry brings no cleared token back.
\<close>

theorem token_store_round_trip:
  "(t \<noteq> [] \<longrightarrow> fst (getAccessToken (setAccessToken (Some t) st)) = Some t)
   \<and> accessToken (setAccessToken None st) = None
   \<and> sessionStorage (setAccessToken None st) \<noteq> Some (Some t')
   \<and> fst (getAccessToken (setAccessToken None st)) = None
   \<and> accessToken (snd (getAccessToken (setAccessToken None st))) = None"
  by (cases "sessionStorage st") (simp_all add: setAccessToken_def getAccessToken_def)

theorem token_store_round_trip_witness:
  "fst (getAccessToken (setAccessToken (Some ''tok1'') browser_store)) = Some ''tok1''
   \<and> fst (getAccessToken (setAccessToken None (setAccessToken (Some ''tok1'') browser_store))) = None"
  using token_store_round_trip [of "''tok1''" browser_store]
    token_store_round_trip [of "''tok1''" "setAccessToken (Some ''tok1'') browser_store"]
  by simp

text \<open>The empty string is a string token that does not come back: both tests of the
  store take it for no token.\<close>

theorem token_store_empty_counterexample:
  "fst (getAccessToken (setAccessToken (Some []) browser_store)) \<noteq> Some []"
  by (simp add: setAccessToken_def getAccessToken_def browser_store_def)

section \<open>The dispatcher refreshes and replays at most once\<close>

text \<open>\<open>str_includes\<close> is the substring test, and the no-token test on an error text
  (or on a missing one) is what its name says.\<close>

lemma starts_with_iff: "starts_with s p \<longleftrightarrow> (\<exists>b. s = p @ b)"
  by (induction s p rule: starts_with.induct) auto

lemma str_includes_iff: "str_includes s p \<longleftrightarrow> (\<exists>a b. s = a @ p @ b)"
proof (induction s)
  case Nil
  then show ?case by auto
next
  case (Cons c s)
  show ?case
  proof
    assume "str_includes (c # s) p"
    then consider "starts_with (c # s) p" | "str_includes s p" by auto
    then show "\<exists>a b. c # s = a @ p @ b"
    proof cases
      case 1
      then obtain b where "c # s = p @ b" using starts_with_iff by blast
      then have "c # s = [] @ p @ b" by simp
      then show ?thesis by blast
    next
      case 2
      then obtain a b where "s = a @ p @ b" using Cons.IH by blast
      then have "c # s = (c # a) @ p @ b" by simp
      then show ?thesis by blast
    qed
  next
    assume "\<exists>a b. c # s = a @ p @ b"
    then obtain a b where e: "c # s = a @ p @ b" by blast
    show "str_includes (c # s) p"
    proof (cases a)
      case Nil
      then have "starts_with (c # s) p" using e starts_with_iff by auto
      then show ?thesis by simp
    next
      case (Cons x a')
      then have "s = a' @ p @ b" using e by simp
      then have "str_includes s p" using Cons.IH by blast
      then show ?thesis by simp
    qed
  qed
qed

lemma isNoTokenError_text:
  "isNoTokenError (or_else (Str s) (Str [])) =
     Some (str_includes s ''No refresh token'' \<or> str_includes s ''No token''
           \<or> str_includes s ''Token not found'' \<or> str_includes s ''Not authenticated'')"
  by (cases s) (simp_all add: isNoTokenError_def or_else_def)

lemma isNoTokenError_falsy:
  "\<not> truthy e \<Longrightarrow> isNoTokenError (or_else e (Str [])) = Some False"
  by (simp add: isNoTokenError_def or_else_def)

lemma axiosInstance_retry:
  "retry cfg \<Longrightarrow>
   sent (snd (axiosInstance net cfg ds)) = sent ds @ [Sent cfg (fst (getAccessToken (store ds)))]"
  by (subst axiosInstance.simps) (simp add: Let_def split: net_outcome.split)

lemma emitted_retry:
  "retry cfg \<Longrightarrow> emitted net cfg ds = [Sent cfg (fst (getAccessToken (store ds)))]"
  by (simp add: emitted_def axiosInstance_retry)

lemma emitted_cases:
  "\<not> retry cfg \<Longrightarrow>
   emitted net cfg ds =
     (case net (length (sent ds)) of
        NoResponse \<Rightarrow> [Sent cfg (fst (getAccessToken (store ds)))]
      | Response r \<Rightarrow>
          if status r = 401 \<and> isNoTokenError (or_else (get (data r) ''error'') (Str [])) = Some False
          then (case refresh_data (net (Suc (length (sent ds)))) of
                  None \<Rightarrow> [Sent cfg (fst (getAccessToken (store ds))), RefreshSent]
                | Some d \<Rightarrow>
                    [Sent cfg (fst (getAccessToken (store ds))), RefreshSent,
                     Sent (cfg\<lparr>retry := True\<rparr>)
                       (fst (getAccessToken (store_refreshed d (snd (getAccessToken (store ds))))))])
          else [Sent cfg (fst (getAccessToken (store ds)))])"
  unfolding emitted_def
  by (subst axiosInstance.simps)
     (simp add: Let_def axiosInstance_retry split: net_outcome.split option.split bool.split)

lemma sent_extends: "\<exists>evs. sent (snd (axiosInstance net cfg ds)) = sent ds @ evs"
proof (cases "retry cfg")
  case True
  then show ?thesis by (simp add: axiosInstance_retry)
next
  case False
  then show ?thesis
    by (subst axiosInstance.simps)
       (simp add: Let_def axiosInstance_retry split: net_outcome.split option.split bool.split)
qed

lemma sent_axiosInstance: "sent (snd (axiosInstance net cfg ds)) = sent ds @ emitted net cfg ds"
proof -
  obtain evs where e: "sent (snd (axiosInstance net cfg ds)) = sent ds @ evs"
    using sent_extends by blast
  then show ?thesis by (simp add: emitted_def)
qed

text \<open>
  C2. A call of the instance adds to what went out before it. Whatever the network
  answers, it sends at most one refresh call; a request marked \<open>_retry\<close> (a replay) goes out once and nothing follows it, a
  401 included; a request not so marked is replayed at most once. When it is not marked,
  its response is a 401 and the error text is none of the no-token texts, exactly one
  refresh call follows it, and then, when the refresh succeeded, exactly one replay,
  marked \<open>_retry\<close>, and nothing else.
\<close>

theorem refresh_and_replay_once:
  "sent (snd (axiosInstance net cfg ds)) = sent ds @ emitted net cfg ds
   \<and> length (filter is_refresh (emitted net cfg ds)) \<le> 1
   \<and> (retry cfg \<longrightarrow> emitted net cfg ds = [Sent cfg (fst (getAccessToken (store ds)))])
   \<and> (\<not> retry cfg \<longrightarrow> length (filter is_replay (emitted net cfg ds)) \<le> 1)
   \<and> (\<not> retry cfg \<and> net (length (sent ds)) = Response r \<and> status r = 401
        \<and> isNoTokenError (or_else (get (data r) ''error'') (Str [])) = Some False \<longrightarrow>
        emitted net cfg ds =
          (case refresh_data (net (Suc (length (sent ds)))) of
             None \<Rightarrow> [Sent cfg (fst (getAccessToken (store ds))), RefreshSent]
           | Some d \<Rightarrow>
               [Sent cfg (fst (getAccessToken (store ds))), RefreshSent,
                Sent (cfg\<lparr>retry := True\<rparr>)
                  (fst (getAccessToken (store_refreshed d (snd (getAccessToken (store ds))))))]))"
proof (cases "retry cfg")
  case True
  then show ?thesis by (simp add: emitted_retry sent_axiosInstance)
next
  case False
  then show ?thesis
    by (simp add: emitted_cases sent_axiosInstance split: net_outcome.split option.split)
qed

theorem refresh_and_replay_once_witness:
  "emitted expired_net history_request logged_in_wire =
     [Sent history_request (Some ''tok1''), RefreshSent,
      Sent (history_request\<lparr>retry := True\<rparr>) (Some ''tok2'')]
   \<and> length (filter is_refresh (emitted expired_net history_request logged_in_wire)) = 1
   \<and> length (filter is_replay (emitted expired_net history_request logged_in_wire)) = 1"
proof -
  have h: "\<not> retry history_request \<and> expired_net (length (sent logged_in_wire)) = Response expired_401
      \<and> status expired_401 = 401
      \<and> isNoTokenError (or_else (get (data expired_401) ''error'') (Str [])) = Some False"
    by (simp add: history_request_def expired_net_def logged_in_wire_def expired_401_def
        isNoTokenError_def or_else_def)
  have d: "refresh_data (expired_net (Suc (length (sent logged_in_wire)))) = Some (data refreshed_200)"
    by (simp add: refresh_data_def expired_net_def logged_in_wire_def refreshed_200_def)
  have e: "emitted expired_net history_request logged_in_wire =
     [Sent history_request (Some ''tok1''), RefreshSent,
      Sent (history_request\<lparr>retry := True\<rparr>) (Some ''tok2'')]"
    using refresh_and_replay_once [of expired_net history_request logged_in_wire expired_401] h
    unfolding d
    by (simp add: logged_in_wire_def getAccessToken_def setAccessToken_def store_refreshed_def
        refreshed_200_def)
  show ?thesis unfolding e by (simp add: history_request_def)
qed

text \<open>On that network the replay is answered 401 again, and the call rejects with it.\<close>

lemma replay_401_rejected:
  "fst (axiosInstance expired_net history_request logged_in_wire) =
     Rejected (AxiosError (Some expired_401) (history_request\<lparr>retry := True\<rparr>))"
  apply (subst axiosInstance.simps)
  apply (simp add: history_request_def expired_net_def logged_in_wire_def expired_401_def
        isNoTokenError_def or_else_def refresh_data_def refreshed_200_def)
  apply (subst axiosInstance.simps)
  apply (simp add: expired_net_def expired_401_def)
  done

section \<open>refreshToken and the error envelope\<close>

lemma refresh_rejected:
  "fst (axiosInstance (\<lambda>n. Response refresh_401) refresh_request \<lparr>store = tokens logged_in, sent = []\<rparr>)
   = Rejected (AxiosError (Some refresh_401) (refresh_request\<lparr>retry := True\<rparr>))"
  by (subst axiosInstance.simps)
     (simp add: refresh_401_def refresh_request_def isNoTokenError_def or_else_def refresh_data_def)

text \<open>
  C4. The refresh endpoint answers 401 to a logged-in client. The dispatcher rejects,
  \<open>apiClient.post\<close> turns the rejection into the envelope \<open>{success: false, error}\<close>
  and returns it, so \<open>refreshToken\<close> returns \<open>false\<close> on its \<open>try\<close> path: its
  \<open>catch\<close>, where \<open>setUser(null)\<close> stands, is not entered, and the user stays.
\<close>

theorem refreshToken_keeps_user:
  "refreshToken_resume
     (apiClient_post ''/api/auth/refresh''
        (fst (axiosInstance (\<lambda>n. Response refresh_401) refresh_request \<lparr>store = tokens logged_in, sent = []\<rparr>)))
     logged_in
   = (Done (Returned (Bool False)), logged_in)
   \<and> user logged_in \<noteq> Null"
  unfolding refresh_rejected
  by (simp add: refreshToken_resume_def isNoTokenError_def or_else_def error_envelope_def
      logged_in_def canonical_user_def refresh_401_def alice_def)

section \<open>The guards and the user cell in every reachable state\<close>

lemma filter_nth_pos: "i < length ts \<Longrightarrow> P (ts ! i) \<Longrightarrow> 0 < length (filter P ts)"
  by (metis filter_empty_conv length_greater_0_conv nth_mem)

lemma continue_fst: "fst (continue i (pr, p) ts) = p"
  by (cases pr) simp_all

lemma continue_count:
  assumes i: "i < length ts"
  shows "length (filter P (snd (continue i (pr, p) ts))) =
     length (filter P ts) - (if P (ts ! i) then 1 else 0)
       + (case pr of Pending t \<Rightarrow> if P t then 1 else 0 | Done r \<Rightarrow> 0)"
proof -
  have a: "ts = take i ts @ ts ! i # drop (Suc i) ts" using i by (rule id_take_nth_drop)
  have c: "length (filter P ts) = length (filter P (take i ts)) + (if P (ts ! i) then 1 else 0)
          + length (filter P (drop (Suc i) ts))"
    by (subst a) simp
  show ?thesis
  proof (cases pr)
    case (Pending t)
    have b: "ts[i := t] = take i ts @ t # drop (Suc i) ts" using i by (rule upd_conv_take_nth_drop)
    have "length (filter P (ts[i := t])) = length (filter P (take i ts)) + (if P t then 1 else 0)
          + length (filter P (drop (Suc i) ts))"
      by (subst b) simp
    with c Pending show ?thesis by simp
  next
    case (Done r)
    with c show ?thesis by simp
  qed
qed

lemma canonical_user_truthy [simp]: "truthy (canonical_user u)"
  by (simp add: canonical_user_def)

lemma canonical_user_not_Null [simp]: "canonical_user u \<noteq> Null"
  by (simp add: canonical_user_def)

lemma checkAuth_call_ok: "guards_ok (p, ts) \<Longrightarrow> guards_ok (spawn (checkAuth_call p) ts)"
  by (auto simp add: guards_ok_def checkAuth_call_def split: if_splits)

lemma mount_ok: "guards_ok (p, ts) \<Longrightarrow> guards_ok (spawn (mount p) ts)"
  by (auto simp add: guards_ok_def mount_def checkAuth_call_def split: if_splits)

lemma login_call_ok: "guards_ok (p, ts) \<Longrightarrow> guards_ok (spawn (login_call e pw p) ts)"
  by (auto simp add: guards_ok_def login_call_def split: if_splits)

lemma signup_call_ok: "guards_ok (p, ts) \<Longrightarrow> guards_ok (spawn (signup_call e u pw p) ts)"
  by (auto simp add: guards_ok_def signup_call_def split: if_splits)

lemma logout_call_ok: "guards_ok (p, ts) \<Longrightarrow> guards_ok (spawn (logout_call p) ts)"
  by (auto simp add: guards_ok_def logout_call_def split: if_splits)

lemma refreshToken_call_ok: "guards_ok (p, ts) \<Longrightarrow> guards_ok (spawn (refreshToken_call p) ts)"
  by (auto simp add: guards_ok_def refreshToken_call_def split: if_splits)

lemma checkAuth_resume_fields:
  "isCheckingAuth (checkAuth_resume out p) = False"
  "isLoggingIn (checkAuth_resume out p) = isLoggingIn p"
  "isSigningUp (checkAuth_resume out p) = isSigningUp p"
  "user (checkAuth_resume out p) = Null \<or> truthy (user (checkAuth_resume out p))"
  by (auto simp add: checkAuth_resume_def Let_def split: outcome.split)

lemma login_locate_truthy: "login_locate d = Some (u, tk) \<Longrightarrow> truthy u"
  by (auto simp add: login_locate_def split: if_splits)

lemma signup_locate_truthy: "signup_locate d = Some (u, tk) \<Longrightarrow> truthy u"
  by (auto simp add: signup_locate_def split: if_splits)

lemma login_catch_shape:
  "\<exists>r. login_catch e p = (Done r, p\<lparr>user := Null, isLoading := False, isLoggingIn := False\<rparr>)"
  by (simp add: login_catch_def)

lemma signup_catch_shape:
  "\<exists>r. signup_catch e p = (Done r, p\<lparr>user := Null, isLoading := False, isSigningUp := False\<rparr>)"
  by (simp add: signup_catch_def)

lemma login_resume_post_shape:
  "(\<exists>a p'. login_resume_post conv out p = (Pending (Login_delay a), p')
       \<and> truthy (user p') \<and> isLoggingIn p' = isLoggingIn p \<and> isSigningUp p' = isSigningUp p
       \<and> isCheckingAuth p' = isCheckingAuth p)
   \<or> (\<exists>r. login_resume_post conv out p
          = (Done r, p\<lparr>user := Null, isLoading := False, isLoggingIn := False\<rparr>))"
proof (cases out)
  case (Thrown e)
  then show ?thesis using login_catch_shape [of e p] by (simp add: login_resume_post_def)
next
  case (Returned response)
  show ?thesis
  proof (cases "\<not> nullish response \<and> truthy (get response ''success'')
                \<and> truthy (get response ''data'')")
    case True
    show ?thesis
    proof (cases "login_locate (get response ''data'')")
      case None
      then show ?thesis using True Returned login_catch_shape [of _ p]
        by (simp add: login_resume_post_def)
    next
      case (Some ut)
      obtain u tk where ut: "ut = (u, tk)" by (cases ut)
      have "truthy u" using Some ut by (simp add: login_locate_truthy)
      then show ?thesis using True Returned Some ut by (simp add: login_resume_post_def)
    qed
  next
    case False
    then show ?thesis using Returned login_catch_shape [of _ p]
      by (auto simp add: login_resume_post_def)
  qed
qed

lemma signup_resume_post_shape:
  "(\<exists>a p'. signup_resume_post conv out p = (Pending (Signup_delay a), p')
       \<and> truthy (user p') \<and> isLoggingIn p' = isLoggingIn p \<and> isSigningUp p' = isSigningUp p
       \<and> isCheckingAuth p' = isCheckingAuth p)
   \<or> (\<exists>r. signup_resume_post conv out p
          = (Done r, p\<lparr>user := Null, isLoading := False, isSigningUp := False\<rparr>))"
proof (cases out)
  case (Thrown e)
  then show ?thesis using signup_catch_shape [of e p] by (simp add: signup_resume_post_def)
next
  case (Returned response)
  show ?thesis
  proof (cases "\<not> nullish response \<and> truthy (get response ''success'')
                \<and> truthy (get response ''data'')")
    case True
    show ?thesis
    proof (cases "signup_locate (get response ''data'')")
      case None
      then show ?thesis using True Returned signup_catch_shape [of _ p]
        by (simp add: signup_resume_post_def)
    next
      case (Some ut)
      obtain u tk where ut: "ut = (u, tk)" by (cases ut)
      have "truthy u" using Some ut by (simp add: signup_locate_truthy)
      then show ?thesis using True Returned Some ut by (simp add: signup_resume_post_def)
    qed
  next
    case False
    then show ?thesis using Returned signup_catch_shape [of _ p]
      by (auto simp add: signup_resume_post_def)
  qed
qed

lemma continue_ok:
  assumes i: "i < length ts" and ok: "guards_ok (p, ts)"
    and l: "(if isLoggingIn p' then 1 else 0) + (if is_login (ts ! i) then 1 else 0)
            = (if isLoggingIn p then 1 else 0)
              + (case pr of Pending t \<Rightarrow> if is_login t then 1 else (0::nat) | Done r \<Rightarrow> 0)"
    and s: "(if isSigningUp p' then 1 else 0) + (if is_signup (ts ! i) then 1 else 0)
            = (if isSigningUp p then 1 else 0)
              + (case pr of Pending t \<Rightarrow> if is_signup t then 1 else (0::nat) | Done r \<Rightarrow> 0)"
    and c: "(if isCheckingAuth p' then 1 else 0) + (if awaits_me (ts ! i) then 1 else 0)
            = (if isCheckingAuth p then 1 else 0)
              + (case pr of Pending t \<Rightarrow> if awaits_me t then 1 else (0::nat) | Done r \<Rightarrow> 0)"
    and u: "user p' = Null \<or> truthy (user p')"
  shows "guards_ok (continue i (pr, p') ts)"
proof -
  have pl: "is_login (ts ! i) \<Longrightarrow> 0 < length (filter is_login ts)"
    and ps: "is_signup (ts ! i) \<Longrightarrow> 0 < length (filter is_signup ts)"
    and pc: "awaits_me (ts ! i) \<Longrightarrow> 0 < length (filter awaits_me ts)"
    by (rule filter_nth_pos [OF i], assumption)+
  have ol: "length (filter is_login ts) = (if isLoggingIn p then 1 else 0)"
    and os: "length (filter is_signup ts) = (if isSigningUp p then 1 else 0)"
    and oc: "length (filter awaits_me ts) = (if isCheckingAuth p then 1 else 0)"
    using ok by (simp_all add: guards_ok_def)
  have "length (filter is_login (snd (continue i (pr, p') ts)))
          = (if isLoggingIn (fst (continue i (pr, p') ts)) then 1 else 0)"
    unfolding continue_count [OF i] continue_fst using l pl ol by (simp split: if_splits)
  moreover have "length (filter is_signup (snd (continue i (pr, p') ts)))
          = (if isSigningUp (fst (continue i (pr, p') ts)) then 1 else 0)"
    unfolding continue_count [OF i] continue_fst using s ps os by (simp split: if_splits)
  moreover have "length (filter awaits_me (snd (continue i (pr, p') ts)))
          = (if isCheckingAuth (fst (continue i (pr, p') ts)) then 1 else 0)"
    unfolding continue_count [OF i] continue_fst using c pc oc by (simp split: if_splits)
  moreover have "user (fst (continue i (pr, p') ts)) = Null
          \<or> truthy (user (fst (continue i (pr, p') ts)))"
    unfolding continue_fst using u .
  ultimately show ?thesis unfolding guards_ok_def by simp
qed

lemma resume_ok:
  assumes i: "i < length ts" and ok: "guards_ok (p, ts)"
  shows "guards_ok (continue i (resume conv (ts ! i) out p) ts)"
proof -
  have u: "user p = Null \<or> truthy (user p)" using ok by (simp add: guards_ok_def)
  have pl: "is_login (ts ! i) \<Longrightarrow> isLoggingIn p"
    using ok filter_nth_pos [OF i, of is_login] by (auto simp add: guards_ok_def split: if_splits)
  have ps: "is_signup (ts ! i) \<Longrightarrow> isSigningUp p"
    using ok filter_nth_pos [OF i, of is_signup] by (auto simp add: guards_ok_def split: if_splits)
  have pc: "awaits_me (ts ! i) \<Longrightarrow> isCheckingAuth p"
    using ok filter_nth_pos [OF i, of awaits_me] by (auto simp add: guards_ok_def split: if_splits)
  show ?thesis
  proof (cases "ts ! i")
    case CheckAuth_me
    show ?thesis unfolding CheckAuth_me resume.simps
      by (rule continue_ok [OF i ok])
         (use pc CheckAuth_me checkAuth_resume_fields [of out p] in simp_all)
  next
    case Login_post
    from login_resume_post_shape [of conv out p] show ?thesis
    proof (elim disjE exE conjE)
      fix a p' assume e: "login_resume_post conv out p = (Pending (Login_delay a), p')"
        and t: "truthy (user p')" and f: "isLoggingIn p' = isLoggingIn p"
          "isSigningUp p' = isSigningUp p" "isCheckingAuth p' = isCheckingAuth p"
      show ?thesis unfolding Login_post resume.simps e
        by (rule continue_ok [OF i ok]) (use pl Login_post t f in simp_all)
    next
      fix r assume e: "login_resume_post conv out p = (Done r, p\<lparr>user := Null, isLoading := False, isLoggingIn := False\<rparr>)"
      show ?thesis unfolding Login_post resume.simps e
        by (rule continue_ok [OF i ok]) (use pl Login_post in simp_all)
    qed
  next
    case (Login_delay a)
    show ?thesis
    proof (cases "isCheckingAuth p")
      case True
      then have e: "login_resume_delay a p = (Pending (Login_return a), p)"
        by (simp add: login_resume_delay_def checkAuth_call_def)
      show ?thesis unfolding Login_delay resume.simps e
        by (rule continue_ok [OF i ok]) (use pl u Login_delay in simp_all)
    next
      case False
      then have e: "login_resume_delay a p = (Pending (Login_me a),
          p\<lparr>isCheckingAuth := True, isLoading := True,
            requests := requests p @ [(''GET'', ''/api/auth/me'', Undefined)]\<rparr>)"
        by (simp add: login_resume_delay_def checkAuth_call_def)
      show ?thesis unfolding Login_delay resume.simps e
        by (rule continue_ok [OF i ok]) (use pl u False Login_delay in simp_all)
    qed
  next
    case (Login_me a)
    show ?thesis unfolding Login_me resume.simps login_resume_me_def
      by (rule continue_ok [OF i ok])
         (use pl pc Login_me checkAuth_resume_fields [of out p] in simp_all)
  next
    case (Login_return a)
    show ?thesis unfolding Login_return resume.simps login_return_def
      by (rule continue_ok [OF i ok]) (use pl u Login_return in simp_all)
  next
    case Signup_post
    from signup_resume_post_shape [of conv out p] show ?thesis
    proof (elim disjE exE conjE)
      fix a p' assume e: "signup_resume_post conv out p = (Pending (Signup_delay a), p')"
        and t: "truthy (user p')" and f: "isLoggingIn p' = isLoggingIn p"
          "isSigningUp p' = isSigningUp p" "isCheckingAuth p' = isCheckingAuth p"
      show ?thesis unfolding Signup_post resume.simps e
        by (rule continue_ok [OF i ok]) (use ps Signup_post t f in simp_all)
    next
      fix r assume e: "signup_resume_post conv out p = (Done r, p\<lparr>user := Null, isLoading := False, isSigningUp := False\<rparr>)"
      show ?thesis unfolding Signup_post resume.simps e
        by (rule continue_ok [OF i ok]) (use ps Signup_post in simp_all)
    qed
  next
    case (Signup_delay a)
    show ?thesis
    proof (cases "isCheckingAuth p")
      case True
      then have e: "signup_resume_delay a p = (Pending (Signup_return a), p)"
        by (simp add: signup_resume_delay_def checkAuth_call_def)
      show ?thesis unfolding Signup_delay resume.simps e
        by (rule continue_ok [OF i ok]) (use ps u Signup_delay in simp_all)
    next
      case False
      then have e: "signup_resume_delay a p = (Pending (Signup_me a),
          p\<lparr>isCheckingAuth := True, isLoading := True,
            requests := requests p @ [(''GET'', ''/api/auth/me'', Undefined)]\<rparr>)"
        by (simp add: signup_resume_delay_def checkAuth_call_def)
      show ?thesis unfolding Signup_delay resume.simps e
        by (rule continue_ok [OF i ok]) (use ps u False Signup_delay in simp_all)
    qed
  next
    case (Signup_me a)
    show ?thesis unfolding Signup_me resume.simps signup_resume_me_def
      by (rule continue_ok [OF i ok])
         (use ps pc Signup_me checkAuth_resume_fields [of out p] in simp_all)
  next
    case (Signup_return a)
    show ?thesis unfolding Signup_return resume.simps signup_return_def
      by (rule continue_ok [OF i ok]) (use ps u Signup_return in simp_all)
  next
    case Logout_post
    show ?thesis unfolding Logout_post resume.simps logout_resume_def
      by (rule continue_ok [OF i ok]) (use Logout_post in simp_all)
  next
    case Refresh_post
    have "\<exists>r p'. refreshToken_resume out p = (Done r, p') \<and> (user p' = Null \<or> truthy (user p'))
        \<and> isLoggingIn p' = isLoggingIn p \<and> isSigningUp p' = isSigningUp p
        \<and> isCheckingAuth p' = isCheckingAuth p"
      using u by (cases out) (simp_all add: refreshToken_resume_def)
    then obtain r p' where e: "refreshToken_resume out p = (Done r, p')"
      and f: "user p' = Null \<or> truthy (user p')" "isLoggingIn p' = isLoggingIn p"
        "isSigningUp p' = isSigningUp p" "isCheckingAuth p' = isCheckingAuth p"
      by blast
    show ?thesis unfolding Refresh_post resume.simps e
      by (rule continue_ok [OF i ok]) (use f Refresh_post in simp_all)
  qed
qed

lemma exec_ok: "guards_ok s \<Longrightarrow> guards_ok (exec conv e s)"
proof (cases s)
  case (Pair p ts)
  assume ok: "guards_ok s"
  show ?thesis
  proof (cases e)
    case (Resume i out)
    then show ?thesis using ok Pair resume_ok [of i ts p conv out] by simp
  next
    case (Intercept t)
    then show ?thesis using ok Pair by (auto simp add: guards_ok_def split: if_splits)
  next
    case ReadToken
    then show ?thesis using ok Pair by (auto simp add: guards_ok_def split: if_splits)
  qed (use ok Pair mount_ok checkAuth_call_ok login_call_ok signup_call_ok logout_call_ok refreshToken_call_ok in simp_all)
qed

lemma run_ok: "guards_ok s \<Longrightarrow> guards_ok (run conv evs s)"
  unfolding run_def by (induction evs arbitrary: s) (simp_all add: exec_ok)

lemma initial_ok: "guards_ok (initial st)"
  by (simp add: guards_ok_def initial_def)

lemma filter_Bex: "(\<exists>t\<in>set ts. P t) \<longleftrightarrow> 0 < length (filter P ts)"
  by (simp add: filter_empty_conv)

lemmas eval_defs = run_def initial_def browser_store_def mount_def checkAuth_call_def login_call_def
  signup_call_def setAccessToken_def getAccessToken_def login_resume_post_def login_locate_def
  canonical_user_def auth_response_def or_else_def and_then_def login_resume_delay_def
  login_resume_me_def login_return_def checkAuth_resume_def alice_def alice_tokens_def
  signup_resume_post_def signup_locate_def signup_catch_def login_catch_def js_Error_def

text \<open>
  C3. In every state the provider reaches from its initial state, by any sequence of
  mounts, calls, resumptions and stored tokens: the guard of \<open>login\<close> is up exactly
  while a \<open>login\<close> is suspended, and so is the guard of \<open>signup\<close>; a call of \<open>login\<close>
  made while one is suspended returns \<open>{success: false, error: 'Login already in
  progress'}\<close> at once and leaves the state as it was, the list of requests included (so
  does \<open>signup\<close>, with its message); a call made while none is suspended raises the
  guard and sends its one request; and every way a suspended \<open>login\<close> or \<open>signup\<close>
  ends, by return or by throw, leaves its guard down.
\<close>

theorem login_signup_guards:
  assumes r: "run conv evs (initial st) = (p, ts)"
  shows "(isLoggingIn p \<longleftrightarrow> (\<exists>t\<in>set ts. is_login t))
   \<and> (isSigningUp p \<longleftrightarrow> (\<exists>t\<in>set ts. is_signup t))
   \<and> ((\<exists>t\<in>set ts. is_login t) \<longrightarrow>
        login_call email password p =
          (Done (Returned (Obj [(''success'', Bool False),
                                (''error'', Str ''Login already in progress'')])), p))
   \<and> ((\<exists>t\<in>set ts. is_signup t) \<longrightarrow>
        signup_call email uname password p =
          (Done (Returned (Obj [(''success'', Bool False),
                                (''error'', Str ''Signup already in progress'')])), p))
   \<and> (\<not> (\<exists>t\<in>set ts. is_login t) \<longrightarrow>
        fst (login_call email password p) = Pending Login_post
        \<and> isLoggingIn (snd (login_call email password p))
        \<and> length (requests (snd (login_call email password p))) = Suc (length (requests p)))
   \<and> (\<not> (\<exists>t\<in>set ts. is_signup t) \<longrightarrow>
        fst (signup_call email uname password p) = Pending Signup_post
        \<and> isSigningUp (snd (signup_call email uname password p))
        \<and> length (requests (snd (signup_call email uname password p))) = Suc (length (requests p)))
   \<and> (i < length ts \<and> is_login (ts ! i) \<and> resume conv (ts ! i) out p = (Done res, p') \<longrightarrow>
        \<not> isLoggingIn p')
   \<and> (i < length ts \<and> is_signup (ts ! i) \<and> resume conv (ts ! i) out p = (Done res, p') \<longrightarrow>
        \<not> isSigningUp p')"
proof -
  have ok: "guards_ok (p, ts)"
    using run_ok [OF initial_ok, of conv evs st] r by simp
  have l: "isLoggingIn p \<longleftrightarrow> (\<exists>t\<in>set ts. is_login t)"
    using ok unfolding filter_Bex by (auto simp add: guards_ok_def split: if_splits)
  have s: "isSigningUp p \<longleftrightarrow> (\<exists>t\<in>set ts. is_signup t)"
    using ok unfolding filter_Bex by (auto simp add: guards_ok_def split: if_splits)
  have el: "resume conv t out p = (Done res, p') \<Longrightarrow> is_login t \<Longrightarrow> \<not> isLoggingIn p'" for t
    using login_resume_post_shape [of conv out p]
    by (cases t) (auto simp add: login_resume_delay_def login_resume_me_def login_return_def
        split: progress.splits)
  have es: "resume conv t out p = (Done res, p') \<Longrightarrow> is_signup t \<Longrightarrow> \<not> isSigningUp p'" for t
    using signup_resume_post_shape [of conv out p]
    by (cases t) (auto simp add: signup_resume_delay_def signup_resume_me_def signup_return_def
        split: progress.splits)
  show ?thesis
    unfolding l [symmetric] s [symmetric]
    using el [of "ts ! i"] es [of "ts ! i"]
    by (simp add: login_call_def signup_call_def)
qed

theorem login_signup_guards_witness:
  "snd (run (\<lambda>v. []) [Mount, CallLogin ''alice@example.com'' ''pw''] (initial browser_store))
     = [CheckAuth_me, Login_post]
   \<and> isLoggingIn (fst (run (\<lambda>v. []) [Mount, CallLogin ''alice@example.com'' ''pw''] (initial browser_store)))
   \<and> login_call ''alice@example.com'' ''pw''
        (fst (run (\<lambda>v. []) [Mount, CallLogin ''alice@example.com'' ''pw''] (initial browser_store)))
      = (Done (Returned (Obj [(''success'', Bool False), (''error'', Str ''Login already in progress'')])),
         fst (run (\<lambda>v. []) [Mount, CallLogin ''alice@example.com'' ''pw''] (initial browser_store)))
   \<and> fst (signup_call ''alice@example.com'' ''alice'' ''pw''
        (fst (run (\<lambda>v. []) [Mount, CallLogin ''alice@example.com'' ''pw''] (initial browser_store))))
      = Pending Signup_post
   \<and> \<not> isLoggingIn (snd (resume (\<lambda>v. []) Login_post
        (Returned (Obj [(''success'', Bool False), (''error'', Str ''Invalid credentials'')]))
        (fst (run (\<lambda>v. []) [Mount, CallLogin ''alice@example.com'' ''pw''] (initial browser_store)))))"
proof -
  obtain p ts where r: "run (\<lambda>v. []) [Mount, CallLogin ''alice@example.com'' ''pw''] (initial browser_store) = (p, ts)"
    by (cases "run (\<lambda>v. []) [Mount, CallLogin ''alice@example.com'' ''pw''] (initial browser_store)")
  have ts: "ts = [CheckAuth_me, Login_post]"
    using r by (simp add: eval_defs)
  obtain res p' where d: "resume (\<lambda>v. []) (ts ! 1)
        (Returned (Obj [(''success'', Bool False), (''error'', Str ''Invalid credentials'')])) p = (Done res, p')"
    unfolding ts by (simp add: eval_defs)
  show ?thesis
    using login_signup_guards [OF r, of "''alice@example.com''" "''pw''" "''alice''" 1
        "Returned (Obj [(''success'', Bool False), (''error'', Str ''Invalid credentials'')])" res p'] d
    unfolding r by (simp add: ts)
qed

text \<open>
  C7. In every state the provider reaches, \<open>isAuthenticated\<close> holds exactly when
  \<open>isLoading\<close> is false and the user is not \<open>null\<close>; while \<open>isLoading\<close> is true it is
  false, whatever the user cell holds.
\<close>

theorem isAuthenticated_exact:
  assumes r: "run conv evs (initial st) = (p, ts)"
  shows "(isAuthenticated p \<longleftrightarrow> \<not> isLoading p \<and> user p \<noteq> Null)
   \<and> (isLoading p \<longrightarrow> \<not> isAuthenticated p)"
proof -
  have "guards_ok (p, ts)"
    using run_ok [OF initial_ok, of conv evs st] r by simp
  then have "user p = Null \<or> truthy (user p)" by (simp add: guards_ok_def)
  then show ?thesis by (auto simp add: isAuthenticated_def)
qed

lemma run_loading:
  "fst (run (\<lambda>v. []) [CallLogin ''alice@example.com'' ''pw'', Resume 0 (Returned login_ok_response)]
     (initial browser_store)) =
   \<lparr>user = canonical_user alice, isLoading = True, isCheckingAuth = False, isLoggingIn = True,
     isSigningUp = False, tokens = \<lparr>accessToken = Some ''tok1'', sessionStorage = Some (Some ''tok1'')\<rparr>,
     requests = [(''POST'', ''/api/auth/login'', Obj [(''email'', Str ''alice@example.com''), (''password'', Str ''pw'')])]\<rparr>"
  by (simp add: eval_defs login_ok_response_def me_response_def)

lemma run_done:
  "fst (run (\<lambda>v. []) [CallLogin ''alice@example.com'' ''pw'', Resume 0 (Returned login_ok_response),
       Resume 0 (Returned Undefined), Resume 0 (Returned me_response), Resume 0 (Returned Undefined)]
     (initial browser_store)) =
   \<lparr>user = alice, isLoading = False, isCheckingAuth = False, isLoggingIn = False,
     isSigningUp = False, tokens = \<lparr>accessToken = Some ''tok1'', sessionStorage = Some (Some ''tok1'')\<rparr>,
     requests = [(''POST'', ''/api/auth/login'', Obj [(''email'', Str ''alice@example.com''), (''password'', Str ''pw'')]),
                 (''GET'', ''/api/auth/me'', Undefined)]\<rparr>"
  by (simp add: eval_defs login_ok_response_def me_response_def)

theorem isAuthenticated_exact_witness:
  "isLoading (fst (run (\<lambda>v. []) [CallLogin ''alice@example.com'' ''pw'', Resume 0 (Returned login_ok_response)]
       (initial browser_store)))
   \<and> user (fst (run (\<lambda>v. []) [CallLogin ''alice@example.com'' ''pw'', Resume 0 (Returned login_ok_response)]
       (initial browser_store))) \<noteq> Null
   \<and> \<not> isAuthenticated (fst (run (\<lambda>v. []) [CallLogin ''alice@example.com'' ''pw'',
         Resume 0 (Returned login_ok_response)] (initial browser_store)))
   \<and> isAuthenticated (fst (run (\<lambda>v. []) [CallLogin ''alice@example.com'' ''pw'',
         Resume 0 (Returned login_ok_response), Resume 0 (Returned Undefined),
         Resume 0 (Returned me_response), Resume 0 (Returned Undefined)] (initial browser_store)))"
proof -
  let ?s1 = "run (\<lambda>v. []) [CallLogin ''alice@example.com'' ''pw'', Resume 0 (Returned login_ok_response)]
       (initial browser_store)"
  let ?s2 = "run (\<lambda>v. []) [CallLogin ''alice@example.com'' ''pw'',
         Resume 0 (Returned login_ok_response), Resume 0 (Returned Undefined),
         Resume 0 (Returned me_response), Resume 0 (Returned Undefined)] (initial browser_store)"
  have a: "?s1 = (fst ?s1, snd ?s1)" and b: "?s2 = (fst ?s2, snd ?s2)" by simp_all
  show ?thesis
    using isAuthenticated_exact [OF a] isAuthenticated_exact [OF b]
    unfolding run_loading run_done by (simp add: canonical_user_def alice_def)
qed

section \<open>logout and checkAuth\<close>

lemma logout_resume_cleared:
  "user (snd (logout_resume out p)) = Null
   \<and> accessToken (tokens (snd (logout_resume out p))) = None
   \<and> sessionStorage (tokens (snd (logout_resume out p))) \<noteq> Some (Some t)
   \<and> fst (getAccessToken (tokens (snd (logout_resume out p)))) = None"
  by (cases "sessionStorage (tokens p)")
     (simp_all add: logout_resume_def setAccessToken_def getAccessToken_def)

lemma run_logout:
  "run conv [CallLogout, Resume (length ts) out] (p, ts) =
     (snd (logout_resume out (snd (logout_call p))), ts)"
  by (simp add: run_def logout_call_def logout_resume_def)

lemma exec_logout:
  "i < length ts \<Longrightarrow> ts ! i = Logout_post \<Longrightarrow>
   fst (exec conv (Resume i out) (p, ts)) = snd (logout_resume out p)"
  by (simp add: logout_resume_def)

text \<open>
  C5. \<open>logout\<close> has no guard: a call always sends its request and suspends. Run from
  any state, with any outcome of the request, a value or a thrown error, the call and
  its resumption leave the user \<open>null\<close>, the token slot \<open>null\<close> and no token in the
  session entry, so that \<open>getAccessToken\<close> finds none, and the other suspended operations
  as they were; and whatever happened between the call and the resumption, the
  resumption of a suspended \<open>logout\<close> leaves them so.
\<close>

theorem logout_clears:
  "fst (logout_call p) = Pending Logout_post
   \<and> requests (snd (logout_call p)) = requests p @ [(''POST'', ''/api/auth/logout'', Undefined)]
   \<and> snd (run conv [CallLogout, Resume (length ts) out] (p, ts)) = ts
   \<and> user (fst (run conv [CallLogout, Resume (length ts) out] (p, ts))) = Null
   \<and> accessToken (tokens (fst (run conv [CallLogout, Resume (length ts) out] (p, ts)))) = None
   \<and> sessionStorage (tokens (fst (run conv [CallLogout, Resume (length ts) out] (p, ts))))
        \<noteq> Some (Some t)
   \<and> fst (getAccessToken (tokens (fst (run conv [CallLogout, Resume (length ts) out] (p, ts)))))
        = None
   \<and> (i < length ts \<and> ts ! i = Logout_post \<longrightarrow>
        user (fst (exec conv (Resume i out) (p, ts))) = Null
        \<and> accessToken (tokens (fst (exec conv (Resume i out) (p, ts)))) = None
        \<and> sessionStorage (tokens (fst (exec conv (Resume i out) (p, ts)))) \<noteq> Some (Some t)
        \<and> fst (getAccessToken (tokens (fst (exec conv (Resume i out) (p, ts))))) = None)"
proof -
  have a: "fst (logout_call p) = Pending Logout_post
     \<and> requests (snd (logout_call p)) = requests p @ [(''POST'', ''/api/auth/logout'', Undefined)]"
    by (simp add: logout_call_def)
  have b: "i < length ts \<and> ts ! i = Logout_post \<longrightarrow>
        user (fst (exec conv (Resume i out) (p, ts))) = Null
        \<and> accessToken (tokens (fst (exec conv (Resume i out) (p, ts)))) = None
        \<and> sessionStorage (tokens (fst (exec conv (Resume i out) (p, ts)))) \<noteq> Some (Some t)
        \<and> fst (getAccessToken (tokens (fst (exec conv (Resume i out) (p, ts))))) = None"
    using logout_resume_cleared [of out p t] by (auto simp only: exec_logout)
  show ?thesis
    using a b logout_resume_cleared [of out "snd (logout_call p)" t]
    unfolding run_logout by simp
qed

theorem logout_clears_witness:
  "run (\<lambda>v. []) [CallLogout, Resume 0 (Thrown (Obj [(''message'', Str ''Network Error'')]))]
     (logged_in, []) =
     (logged_in\<lparr>user := Null, tokens := browser_store,
        requests := requests logged_in @ [(''POST'', ''/api/auth/logout'', Undefined)]\<rparr>, [])
   \<and> user (fst (exec (\<lambda>v. []) (Resume 1 (Returned (Obj [(''success'', Bool True)])))
        (logged_in, [Login_post, Logout_post]))) = Null
   \<and> accessToken (tokens (fst (exec (\<lambda>v. []) (Resume 1 (Returned (Obj [(''success'', Bool True)])))
        (logged_in, [Login_post, Logout_post])))) = None"
proof -
  have h: "1 < length [Login_post, Logout_post] \<and> [Login_post, Logout_post] ! 1 = Logout_post"
    by simp
  have r: "run (\<lambda>v. []) [CallLogout, Resume 0 (Thrown (Obj [(''message'', Str ''Network Error'')]))]
     (logged_in, []) =
     (logged_in\<lparr>user := Null, tokens := browser_store,
        requests := requests logged_in @ [(''POST'', ''/api/auth/logout'', Undefined)]\<rparr>, [])"
    using logout_clears [of logged_in "\<lambda>v. []" "[]"
        "Thrown (Obj [(''message'', Str ''Network Error'')])"]
    by (simp add: run_def logout_call_def logout_resume_def logged_in_def setAccessToken_def
        browser_store_def)
  show ?thesis
    using r logout_clears [of logged_in "\<lambda>v. []" "[Login_post, Logout_post]"
        "Returned (Obj [(''success'', Bool True)])" _ 1, THEN conjunct2, THEN conjunct2,
        THEN conjunct2, THEN conjunct2, THEN conjunct2, THEN conjunct2, THEN conjunct2, THEN mp, OF h]
    by simp
qed

lemma get_nullish: "nullish v \<Longrightarrow> get v k = Undefined"
  by (cases v) simp_all

text \<open>
  C6. After \<open>checkAuth\<close> handled the outcome of its request, the user is not \<open>null\<close>
  only if the call returned a response whose \<open>success\<close> is \<open>true\<close> and whose
  \<open>data.user\<close> is there, and the user is then that value; such a response sets it; a
  response whose \<open>success\<close> is \<open>false\<close>, with an error message or without, leaves the
  user \<open>null\<close>, and so does every thrown error.
\<close>

theorem checkAuth_sets_user_only_on_success:
  "(user (checkAuth_resume out p) \<noteq> Null \<longrightarrow>
      (\<exists>response. out = Returned response \<and> get response ''success'' = Bool True
          \<and> truthy (get (get response ''data'') ''user'')
          \<and> user (checkAuth_resume out p) = get (get response ''data'') ''user''))
   \<and> (get response ''success'' = Bool True \<and> truthy (get (get response ''data'') ''user'') \<longrightarrow>
        user (checkAuth_resume (Returned response) p) = get (get response ''data'') ''user'')
   \<and> (get response ''success'' = Bool False \<longrightarrow>
        user (checkAuth_resume (Returned response) p) = Null)
   \<and> user (checkAuth_resume (Thrown e) p) = Null"
  by (cases out) (auto simp add: checkAuth_resume_def Let_def get_nullish)

theorem checkAuth_sets_user_only_on_success_witness:
  "user (checkAuth_resume (Returned me_response) logged_in) = alice
   \<and> user (checkAuth_resume
        (Returned (Obj [(''success'', Bool False), (''error'', Str ''No token provided'')])) logged_in) = Null
   \<and> user (checkAuth_resume (Returned (Obj [(''success'', Bool False)])) logged_in) = Null
   \<and> user (checkAuth_resume (Thrown (Obj [(''message'', Str ''Network Error'')])) logged_in) = Null"
  using checkAuth_sets_user_only_on_success [of "Returned me_response" logged_in me_response]
    checkAuth_sets_user_only_on_success [of "Returned me_response" logged_in
      "Obj [(''success'', Bool False), (''error'', Str ''No token provided'')]"]
    checkAuth_sets_user_only_on_success [of "Returned me_response" logged_in
      "Obj [(''success'', Bool False)]" "Obj [(''message'', Str ''Network Error'')]"]
  by (simp add: me_response_def alice_def)

section \<open>The layouts login and signup read\<close>

lemma get_append_other:
  "k \<noteq> k' \<Longrightarrow> get (Obj (props @ [(k', v)])) k = get (Obj props) k"
  by (simp add: map_add_def split: option.split)

lemma canonical_user_flat:
  "canonical_user (layout_flat props tk) = canonical_user (Obj props)"
  unfolding canonical_user_def layout_flat_def by (simp add: get_append_other del: get.simps)

text \<open>
  For the fields of a user with a truthy \<open>email\<close> and \<open>username\<close> (and no field named
  \<open>user\<close> or \<open>tokens\<close>) and a token pair: \<open>login\<close> builds the same user, returns the
  same response and stores the same token from each of the three layouts, \<open>signup\<close> from
  the first two, and the identifier is \<open>_id\<close>, or \<open>id\<close> where \<open>_id\<close> is missing.
\<close>

theorem login_layouts_agree:
  assumes "map_of props ''user'' = None" and "map_of props ''tokens'' = None"
    and "truthy (get (Obj props) ''email'')" and "truthy (get (Obj props) ''username'')"
    and "truthy tk"
  shows "login_resume_post conv (Returned (success_response (layout_top (Obj props) tk))) p =
       (Pending (Login_delay (auth_response (canonical_user (Obj props)) tk)),
        p\<lparr>user := canonical_user (Obj props),
          tokens := store_token (get tk ''accessToken'') (tokens p)\<rparr>)
     \<and> login_resume_post conv (Returned (success_response (layout_flat props tk))) p =
         login_resume_post conv (Returned (success_response (layout_top (Obj props) tk))) p
     \<and> login_resume_post conv (Returned (success_response (layout_nested (Obj props) tk))) p =
         login_resume_post conv (Returned (success_response (layout_top (Obj props) tk))) p
     \<and> signup_resume_post conv (Returned (success_response (layout_top (Obj props) tk))) p =
       (Pending (Signup_delay (auth_response (canonical_user (Obj props)) tk)),
        p\<lparr>user := canonical_user (Obj props),
          tokens := store_token (get tk ''accessToken'') (tokens p)\<rparr>)
     \<and> signup_resume_post conv (Returned (success_response (layout_flat props tk))) p =
         signup_resume_post conv (Returned (success_response (layout_top (Obj props) tk))) p
     \<and> get (canonical_user (Obj props)) ''_id''
         = or_else (get (Obj props) ''_id'') (get (Obj props) ''id'')"
proof -
  have top: "login_locate (layout_top (Obj props) tk) = Some (canonical_user (Obj props), tk)"
    by (simp add: login_locate_def layout_top_def)
  have f1: "get (layout_flat props tk) ''user'' = Undefined"
    and f2: "get (layout_flat props tk) ''tokens'' = tk"
    and f3: "get (layout_flat props tk) ''email'' = get (Obj props) ''email''"
    and f4: "get (layout_flat props tk) ''username'' = get (Obj props) ''username''"
    using assms(1,2) by (simp_all add: layout_flat_def map_add_def split: option.split)
  have flat: "login_locate (layout_flat props tk) = Some (canonical_user (Obj props), tk)"
    using assms(3,4) unfolding login_locate_def f1 f2 f3 f4 canonical_user_flat by simp
  have nested: "login_locate (layout_nested (Obj props) tk) = Some (canonical_user (Obj props), tk)"
    using assms(5) by (simp add: login_locate_def layout_nested_def or_else_def)
  have stop: "signup_locate (layout_top (Obj props) tk) = Some (canonical_user (Obj props), tk)"
    by (simp add: signup_locate_def layout_top_def)
  have sflat: "signup_locate (layout_flat props tk) = Some (canonical_user (Obj props), tk)"
    using assms(3,4) unfolding signup_locate_def f1 f2 f3 f4 canonical_user_flat by simp
  have t1: "truthy (layout_top (Obj props) tk)" "truthy (layout_flat props tk)"
    "truthy (layout_nested (Obj props) tk)"
    by (simp_all add: layout_top_def layout_flat_def layout_nested_def)
  have l: "login_resume_post conv (Returned (success_response d)) p =
       (Pending (Login_delay (auth_response (canonical_user (Obj props)) tk)),
        p\<lparr>user := canonical_user (Obj props),
          tokens := store_token (get tk ''accessToken'') (tokens p)\<rparr>)"
    if "login_locate d = Some (canonical_user (Obj props), tk)" and "truthy d" for d
    using that by (simp add: login_resume_post_def success_response_def)
  have s: "signup_resume_post conv (Returned (success_response d)) p =
       (Pending (Signup_delay (auth_response (canonical_user (Obj props)) tk)),
        p\<lparr>user := canonical_user (Obj props),
          tokens := store_token (get tk ''accessToken'') (tokens p)\<rparr>)"
    if "signup_locate d = Some (canonical_user (Obj props), tk)" and "truthy d" for d
    using that by (simp add: signup_resume_post_def success_response_def)
  have i: "get (canonical_user (Obj props)) ''_id''
         = or_else (get (Obj props) ''_id'') (get (Obj props) ''id'')"
    by (simp add: canonical_user_def)
  show ?thesis
    unfolding l [OF top t1(1)] l [OF flat t1(2)] l [OF nested t1(3)]
      s [OF stop t1(1)] s [OF sflat t1(2)] i
    by simp
qed

theorem login_layouts_agree_witness:
  "login_resume_post (\<lambda>v. []) (Returned (success_response (layout_nested alice alice_tokens))) logging_in =
     (Pending (Login_delay (auth_response (canonical_user alice) alice_tokens)),
      logging_in\<lparr>user := canonical_user alice,
                  tokens := \<lparr>accessToken = Some ''tok1'', sessionStorage = Some (Some ''tok1'')\<rparr>\<rparr>)
   \<and> login_resume_post (\<lambda>v. [])
        (Returned (success_response (layout_flat
           [(''id'', Str ''u1''), (''email'', Str ''alice@example.com''), (''username'', Str ''alice'')]
           alice_tokens))) logging_in =
     (Pending (Login_delay (auth_response (canonical_user alice) alice_tokens)),
      logging_in\<lparr>user := canonical_user alice,
                  tokens := \<lparr>accessToken = Some ''tok1'', sessionStorage = Some (Some ''tok1'')\<rparr>\<rparr>)
   \<and> get (canonical_user alice) ''_id'' = Str ''u1''"
  using login_layouts_agree [of "[(''id'', Str ''u1''), (''email'', Str ''alice@example.com''),
      (''username'', Str ''alice'')]" alice_tokens "\<lambda>v. []" logging_in]
  by (simp add: alice_def [symmetric])
     (simp add: alice_def alice_tokens_def logging_in_def browser_store_def setAccessToken_def
       or_else_def)

text \<open>
  C1. A success response to \<open>signup\<close> in the third layout, user and tokens one level
  down under \<open>data\<close>: \<open>signup\<close> finds no user, fails with \<open>'Signup failed - no user
  data received'\<close>, sets the user to \<open>null\<close> and stores no token, and the interceptor
  finds no token in that body either. \<open>login\<close>, given the same response, builds the
  user and stores the token.
\<close>

theorem signup_misses_nested_layout:
  "signup_resume_post conv (Returned nested_response) signing_up =
     (Done (Returned (Obj [(''success'', Bool False),
                           (''error'', Str ''Signup failed - no user data received'')])),
      signing_up\<lparr>user := Null, isLoading := False, isSigningUp := False\<rparr>)
   \<and> extract_token nested_response = Undefined
   \<and> login_resume_post conv (Returned nested_response) logging_in =
     (Pending (Login_delay (auth_response (canonical_user alice) alice_tokens)),
      logging_in\<lparr>user := canonical_user alice,
                  tokens := \<lparr>accessToken = Some ''tok1'', sessionStorage = Some (Some ''tok1'')\<rparr>\<rparr>)"
  by (simp add: eval_defs nested_response_def signing_up_def logging_in_def extract_token_def)

section \<open>Chat history timestamps normalized\<close>

lemma map_of_set_property:
  "map_of (set_property k v kvs) k' = (if k' = k then Some v else map_of kvs k')"
  by (induction kvs) auto

lemma normalizeTimestamp_valid: "normalizeTimestamp now parse dateValue \<noteq> None"
  by (simp add: normalizeTimestamp_def split: option.split)

text \<open>
  C8. The numbers 1700000000 (seconds) and 1700000000000 (milliseconds) become the same
  instant, as values and as the \<open>timestamp\<close> of a loaded message. Every message is kept,
  with its other properties as they were and a valid instant as its \<open>timestamp\<close>; and
  whenever the value does not parse to a valid instant, that instant is the current time:
  a missing value, a value of another type, a string the parser rejects, \<open>NaN\<close>, an
  invalid \<open>Date\<close>.
\<close>

theorem timestamps_normalized:
  "normalizeTimestamp now parse (Num (Fin 1700000000)) = Some 1700000000000
   \<and> normalizeTimestamp now parse (Num (Fin 1700000000000)) = Some 1700000000000
   \<and> get (loadedMessage now parse [(''timestamp'', Num (Fin 1700000000))]) ''timestamp''
       = get (loadedMessage now parse [(''timestamp'', Num (Fin 1700000000000))]) ''timestamp''
   \<and> (\<exists>t. get (loadedMessage now parse msg) ''timestamp'' = DateObj (Some t))
   \<and> (k \<noteq> ''timestamp'' \<longrightarrow> get (loadedMessage now parse msg) k = get (Obj msg) k)
   \<and> (parseTimestamp now parse dateValue = None \<longrightarrow>
        normalizeTimestamp now parse dateValue = Some now)
   \<and> normalizeTimestamp now parse Undefined = Some now
   \<and> normalizeTimestamp now parse Null = Some now
   \<and> normalizeTimestamp now parse (Bool b) = Some now
   \<and> normalizeTimestamp now parse (Arr xs) = Some now
   \<and> normalizeTimestamp now parse (Obj kvs) = Some now
   \<and> (parse s = None \<longrightarrow> normalizeTimestamp now parse (Str s) = Some now)
   \<and> normalizeTimestamp now parse (Num NaN) = Some now
   \<and> normalizeTimestamp now parse (DateObj None) = Some now"
proof -
  have v: "\<exists>t. normalizeTimestamp now parse d = Some t" for d
    using normalizeTimestamp_valid [of now parse d] by blast
  have a: "\<exists>t. get (loadedMessage now parse msg) ''timestamp'' = DateObj (Some t)"
    using v by (simp add: loadedMessage_def map_of_set_property)
  have b: "k \<noteq> ''timestamp'' \<longrightarrow> get (loadedMessage now parse msg) k = get (Obj msg) k"
    by (simp add: loadedMessage_def map_of_set_property)
  show ?thesis using a b
    by (simp add: normalizeTimestamp_def loadedMessage_def or_else_def)
qed

theorem timestamps_normalized_witness:
  "parseTimestamp 1762041600000 (\<lambda>s. None) (Str ''not a date'') = None
   \<and> normalizeTimestamp 1762041600000 (\<lambda>s. None) (Str ''not a date'') = Some 1762041600000
   \<and> get (loadedMessage 1762041600000 (\<lambda>s. None) [(''role'', Str ''user''), (''content'', Str ''hi'')]) ''role''
       = Str ''user''
   \<and> get (loadedMessage 1762041600000 (\<lambda>s. None) [(''role'', Str ''user''), (''content'', Str ''hi'')]) ''timestamp''
       = DateObj (Some 1762041600000)"
  using timestamps_normalized [of 1762041600000 "\<lambda>s. None"
      "[(''role'', Str ''user''), (''content'', Str ''hi'')]" "''role''" "Str ''not a date''"]
  by (simp add: loadedMessage_def normalizeTimestamp_def or_else_def)

section \<open>The sync request schema accepts exactly one of name and id\<close>

lemma parsed_get:
  "get (Obj (parsed body)) ''username'' = get body ''username''"
  "get (Obj (parsed body)) ''anilistUsername'' = get body ''anilistUsername''"
  "get (Obj (parsed body)) ''userId'' = get body ''userId''"
  by (auto simp add: parsed_def split: option.splits)

lemma transformed_get:
  "get (Obj (transformed d)) ''username'' =
     (if truthy (get (Obj d) ''anilistUsername'') \<and> \<not> truthy (get (Obj d) ''username'')
      then get (Obj d) ''anilistUsername'' else get (Obj d) ''username'')"
  "get (Obj (transformed d)) ''userId'' = get (Obj d) ''userId''"
  by (simp_all add: transformed_def map_of_set_property)

lemma name_optional_truthy: "name_optional k v = [] \<Longrightarrow> truthy v \<longleftrightarrow> v \<noteq> Undefined"
  by (cases v) (auto split: if_splits)

lemma id_optional_truthy: "id_optional k v = [] \<Longrightarrow> truthy v \<longleftrightarrow> v \<noteq> Undefined"
proof (cases v)
  case (Num n)
  assume "id_optional k v = []"
  then show ?thesis using Num by (cases n) (auto split: if_splits)
qed auto

lemma field_issues_empty:
  "field_issues body = [] \<longleftrightarrow>
     boolean_optional ''force'' (get body ''force'') = []
     \<and> name_optional ''username'' (get body ''username'') = []
     \<and> name_optional ''anilistUsername'' (get body ''anilistUsername'') = []
     \<and> id_optional ''userId'' (get body ''userId'') = []"
  by (simp add: field_issues_def)

lemma refined_name:
  assumes "field_issues body = []"
  shows "truthy (get (Obj (transformed (parsed body))) ''username'') \<longleftrightarrow> has_name body"
proof -
  have n: "truthy (get body ''username'') \<longleftrightarrow> get body ''username'' \<noteq> Undefined"
    and a: "truthy (get body ''anilistUsername'') \<longleftrightarrow> get body ''anilistUsername'' \<noteq> Undefined"
    using assms name_optional_truthy [of "''username''" "get body ''username''"]
      name_optional_truthy [of "''anilistUsername''" "get body ''anilistUsername''"]
    by (simp_all add: field_issues_empty)
  have "get (Obj (transformed (parsed body))) ''username'' =
     (if truthy (get body ''anilistUsername'') \<and> \<not> truthy (get body ''username'')
      then get body ''anilistUsername'' else get body ''username'')"
    unfolding transformed_get parsed_get ..
  then show ?thesis using n a by (auto simp add: has_name_def)
qed

lemma refined_id:
  assumes "field_issues body = []"
  shows "truthy (get (Obj (transformed (parsed body))) ''userId'') \<longleftrightarrow> has_id body"
proof -
  have i: "truthy (get body ''userId'') \<longleftrightarrow> get body ''userId'' \<noteq> Undefined"
    using assms id_optional_truthy [of "''userId''" "get body ''userId''"]
    by (simp add: field_issues_empty)
  have "get (Obj (transformed (parsed body))) ''userId'' = get body ''userId''"
    unfolding transformed_get parsed_get ..
  then show ?thesis using i by (simp add: has_id_def)
qed

lemma schema_passing:
  assumes "fields_pass body"
  shows "syncRequestSchema lib body =
     (if has_name body \<and> has_id body
      then Inl [Custom ''Cannot provide both username and userId'' ''userId'']
      else if \<not> has_name body \<and> \<not> has_id body
      then Inl [Custom ''Either username or userId must be provided to sync a public profile''
                  ''username'']
      else Inr (Obj (transformed (parsed body))))"
proof -
  obtain kvs where b: "body = Obj kvs" using assms by (cases body) simp_all
  have f: "field_issues (Obj kvs) = []" using assms b by simp
  show ?thesis unfolding b
    using refined_name [OF f] refined_id [OF f]
    by (simp add: f refinement_issues_def del: get.simps)
qed

lemma schema_failing:
  assumes "\<not> fields_pass body"
  shows "\<exists>i issues. syncRequestSchema lib body = Inl (i # issues)"
proof (cases body)
  case (Obj kvs)
  then have "field_issues (Obj kvs) \<noteq> []" using assms by simp
  then obtain i issues where "field_issues (Obj kvs) = i # issues"
    by (cases "field_issues (Obj kvs)") simp_all
  then show ?thesis using Obj by simp
qed simp_all

lemma route_rejects: "syncRequestSchema lib body = Inl issues \<Longrightarrow> snd (POST lib env body) = []"
  by (simp add: POST_def)

lemma service_failed_calls: "snd (service_failed m calls) = calls"
  by (simp add: service_failed_def)

lemma schema_accepts:
  assumes "syncRequestSchema lib body = Inr v"
  shows "fields_pass body \<and> has_name body \<noteq> has_id body \<and> v = Obj (transformed (parsed body))"
proof -
  have p: "fields_pass body"
    using assms schema_failing [of body lib] by auto
  show ?thesis using assms p unfolding schema_passing [OF p] by (auto split: if_splits)
qed

lemma route_calls:
  assumes "syncRequestSchema lib body = Inr v"
  shows "snd (POST lib env body) \<noteq> []"
proof -
  have p: "fields_pass body" and x: "has_name body \<noteq> has_id body"
    and v: "v = Obj (transformed (parsed body))"
    using schema_accepts [OF assms] by simp_all
  have f: "field_issues body = []" using p by (cases body) simp_all
  have "truthy (get v ''username'') \<or> truthy (get v ''userId'')"
    unfolding v refined_name [OF f] refined_id [OF f] using x by auto
  then show ?thesis using assms
    by (auto simp add: POST_def service_failed_calls split: sum.splits)
qed

text \<open>
  C9, as amended. Validation succeeds only on an input whose fields all pass and that
  provides exactly one of a user name (under \<open>username\<close> or \<open>anilistUsername\<close>) and a
  user id, and it succeeds on every such input, with the user name under \<open>username\<close>;
  the route then calls the list service. An input whose fields all pass and that provides
  both is rejected with \<open>'Cannot provide both username and userId'\<close>, and one that
  provides neither with \<open>'Either username or userId must be provided to sync a public
  profile'\<close>; the route answers 400 with that message where the library's error holds
  its \<open>errors\<close>. On every rejection the route has called nothing.
\<close>

theorem sync_request_exactly_one:
  "(syncRequestSchema lib body = Inr v \<longrightarrow>
      fields_pass body \<and> has_name body \<noteq> has_id body \<and> v = Obj (transformed (parsed body))
      \<and> snd (POST lib env body) \<noteq> [])
   \<and> (fields_pass body \<and> has_name body \<noteq> has_id body \<longrightarrow>
        syncRequestSchema lib body = Inr (Obj (transformed (parsed body))))
   \<and> (fields_pass body \<and> has_name body \<and> has_id body \<longrightarrow>
        syncRequestSchema lib body =
          Inl [Custom ''Cannot provide both username and userId'' ''userId'']
        \<and> snd (POST lib env body) = []
        \<and> (errors_array lib \<longrightarrow>
             fst (POST lib env body) =
               (400, failure (Str ''Cannot provide both username and userId''))))
   \<and> (fields_pass body \<and> \<not> has_name body \<and> \<not> has_id body \<longrightarrow>
        syncRequestSchema lib body =
          Inl [Custom ''Either username or userId must be provided to sync a public profile''
                 ''username'']
        \<and> snd (POST lib env body) = []
        \<and> (errors_array lib \<longrightarrow>
             fst (POST lib env body) =
               (400, failure (Str
                  ''Either username or userId must be provided to sync a public profile''))))
   \<and> (syncRequestSchema lib body = Inl issues \<longrightarrow> snd (POST lib env body) = [])"
proof -
  have a: "syncRequestSchema lib body = Inr v \<longrightarrow>
      fields_pass body \<and> has_name body \<noteq> has_id body \<and> v = Obj (transformed (parsed body))
      \<and> snd (POST lib env body) \<noteq> []"
    using schema_accepts [of lib body v] route_calls [of lib body v env] by blast
  have b: "fields_pass body \<and> has_name body \<noteq> has_id body \<longrightarrow>
        syncRequestSchema lib body = Inr (Obj (transformed (parsed body)))"
    using schema_passing [of body lib] by auto
  have c: "fields_pass body \<and> has_name body \<and> has_id body \<longrightarrow>
        syncRequestSchema lib body =
          Inl [Custom ''Cannot provide both username and userId'' ''userId'']
        \<and> snd (POST lib env body) = []
        \<and> (errors_array lib \<longrightarrow>
             fst (POST lib env body) =
               (400, failure (Str ''Cannot provide both username and userId'')))"
    using schema_passing [of body lib] by (simp add: POST_def or_else_def)
  have d: "fields_pass body \<and> \<not> has_name body \<and> \<not> has_id body \<longrightarrow>
        syncRequestSchema lib body =
          Inl [Custom ''Either username or userId must be provided to sync a public profile''
                 ''username'']
        \<and> snd (POST lib env body) = []
        \<and> (errors_array lib \<longrightarrow>
             fst (POST lib env body) =
               (400, failure (Str
                  ''Either username or userId must be provided to sync a public profile'')))"
    using schema_passing [of body lib] by (simp add: POST_def or_else_def)
  have e: "syncRequestSchema lib body = Inl issues \<longrightarrow> snd (POST lib env body) = []"
    using route_rejects [of lib body issues env] by blast
  show ?thesis
    by (rule conjI, rule a, rule conjI, rule b, rule conjI, rule c, rule conjI, rule d, rule e)
qed

text \<open>
  The message of the rejection is not the shorter \<open>'Either username or userId must be
  provided.'\<close>; an input that provides both, the name in a field that fails its own
  rule, is rejected with the issue of that field; and an input that provides neither,
  with a string for \<open>force\<close>, is rejected with the issue of \<open>force\<close>: whichever
  way the library goes.
\<close>

theorem sync_request_message_counterexample:
  "syncRequestSchema lib_refining sync_none \<noteq>
     Inl [Custom ''Either username or userId must be provided.'' ''username'']
   \<and> syncRequestSchema lib_stopping sync_none \<noteq>
     Inl [Custom ''Either username or userId must be provided.'' ''username'']
   \<and> has_name sync_long \<and> has_id sync_long
   \<and> syncRequestSchema lib_refining sync_long = Inl [FieldIssue ''anilistUsername'']
   \<and> syncRequestSchema lib_stopping sync_long = Inl [FieldIssue ''anilistUsername'']
   \<and> \<not> has_name sync_mistyped \<and> \<not> has_id sync_mistyped
   \<and> syncRequestSchema lib_refining sync_mistyped = Inl [TypeIssue ''force'']
   \<and> syncRequestSchema lib_stopping sync_mistyped = Inl [TypeIssue ''force'']"
  by (simp add: sync_none_def sync_long_def sync_mistyped_def lib_refining_def lib_stopping_def
      field_issues_def refinement_issues_def transformed_def parsed_def has_name_def has_id_def)

theorem sync_request_exactly_one_witness:
  "POST lib_refining list_service sync_name =
     ((200, synced 12 (Str ''alice'') (Num (Fin 7))),
      [UserIdLookup (Str ''alice''), ListFetch (Obj [(''username'', Str ''alice'')])])
   \<and> syncRequestSchema lib_refining sync_both =
       Inl [Custom ''Cannot provide both username and userId'' ''userId'']
   \<and> POST lib_refining list_service sync_both =
       ((400, failure (Str ''Cannot provide both username and userId'')), [])
   \<and> syncRequestSchema lib_refining sync_none =
       Inl [Custom ''Either username or userId must be provided to sync a public profile''
              ''username'']
   \<and> POST lib_refining list_service sync_none =
       ((400, failure (Str ''Either username or userId must be provided to sync a public profile'')),
        [])"
proof -
  have a: "fields_pass sync_name \<and> has_name sync_name \<noteq> has_id sync_name"
    by (simp add: sync_name_def field_issues_def has_name_def has_id_def)
  have b: "fields_pass sync_both \<and> has_name sync_both \<and> has_id sync_both"
    by (simp add: sync_both_def field_issues_def has_name_def has_id_def)
  have c: "fields_pass sync_none \<and> \<not> has_name sync_none \<and> \<not> has_id sync_none"
    by (simp add: sync_none_def field_issues_def has_name_def has_id_def)
  have l: "errors_array lib_refining" by (simp add: lib_refining_def)
  have n: "transformed (parsed sync_name) =
      [(''force'', Bool True), (''username'', Str ''alice''), (''anilistUsername'', Str ''alice'')]"
    by (simp add: transformed_def parsed_def sync_name_def)
  have s: "syncRequestSchema lib_refining sync_name = Inr (Obj (transformed (parsed sync_name)))"
    by (rule sync_request_exactly_one [of lib_refining sync_name Undefined list_service "[]",
          THEN conjunct2, THEN conjunct1, THEN mp, OF a])
  have p: "POST lib_refining list_service sync_name =
     ((200, synced 12 (Str ''alice'') (Num (Fin 7))),
      [UserIdLookup (Str ''alice''), ListFetch (Obj [(''username'', Str ''alice'')])])"
    unfolding POST_def s n by (simp add: list_service_def)
  note both = sync_request_exactly_one [of lib_refining sync_both Undefined list_service "[]",
      THEN conjunct2, THEN conjunct2, THEN conjunct1, THEN mp, OF b]
  note none = sync_request_exactly_one [of lib_refining sync_none Undefined list_service "[]",
      THEN conjunct2, THEN conjunct2, THEN conjunct2, THEN conjunct1, THEN mp, OF c]
  have pb: "POST lib_refining list_service sync_both =
       ((400, failure (Str ''Cannot provide both username and userId'')), [])"
    by (rule prod_eqI)
       (simp_all only: fst_conv snd_conv
          both [THEN conjunct2, THEN conjunct1]
          both [THEN conjunct2, THEN conjunct2, THEN mp, OF l])
  have pn: "POST lib_refining list_service sync_none =
       ((400, failure (Str ''Either username or userId must be provided to sync a public profile'')),
        [])"
    by (rule prod_eqI)
       (simp_all only: fst_conv snd_conv
          none [THEN conjunct2, THEN conjunct1]
          none [THEN conjunct2, THEN conjunct2, THEN mp, OF l])
  show ?thesis
    by (rule conjI, rule p, rule conjI, rule both [THEN conjunct1], rule conjI, rule pb,
        rule conjI, rule none [THEN conjunct1], rule pn)
qed

end
